theory Spec2Isabelle
  imports Complex_Main "HOL-Library.Log_Nat"
begin

section \<open>Data model\<close>

text \<open>
  The repository holds two variants of one \<^verbatim>\<open>Game\<close> class: \<^verbatim>\<open>src/game.js\<close> (the fixed
  screen) and \<^verbatim>\<open>src/game-loop.js\<close> (the endless runner). The canvas size is an \<^verbatim>\<open>unsigned long\<close> attribute of the canvas
  element and is modelled as a natural number. Player and platforms are object literals
  sharing the fields \<^verbatim>\<open>x\<close>, \<^verbatim>\<open>y\<close>, \<^verbatim>\<open>width\<close>, \<^verbatim>\<open>height\<close>.

  JavaScript numbers are IEEE 754 doubles; a field holds the real number that the double
  denotes. The tests of \<^verbatim>\<open>checkCollisions\<close> compare sums and differences of coordinates,
  and whether a player at rest is landed again depends on how these round, so every
  arithmetic operation of \<^verbatim>\<open>checkCollisions\<close> is modelled as the code performs it, in
  double arithmetic (section "Double arithmetic"). The arithmetic of the other steps is
  modelled exactly: their equations are those of the code's expressions.
\<close>

record rect =
  x :: real
  y :: real
  width :: real
  height :: real

type_synonym platform = rect

text \<open>\<^verbatim>\<open>this.player\<close> of game.js (lines 12-20).\<close>

record player = rect +
  velocityX :: real
  velocityY :: real
  isJumping :: bool

text \<open>\<^verbatim>\<open>this.player\<close> of game-loop.js (lines 17-27): the same fields and two more.\<close>

record runner = player +
  speed :: real
  maxSpeed :: real

record input =
  left :: bool
  right :: bool
  jump :: bool

text \<open>The fields both classes have.\<close>

record 'p game =
  canvasWidth :: nat
  canvasHeight :: nat
  player :: 'p
  gravity :: real
  jumpForce :: real
  input :: input
  platforms :: "platform list"

record fixed_game = "player game" +
  moveSpeed :: real

record endless_game = "runner game" +
  cameraX :: real
  distance :: real
  minPlatformWidth :: real
  maxPlatformWidth :: real
  minGapWidth :: real
  maxGapWidth :: real
  platformHeight :: real

text \<open>
  The outcomes of the successive calls of \<^verbatim>\<open>Math.random()\<close>: position 0 is the next
  outcome. Every function that calls \<^verbatim>\<open>randomBetween\<close> takes the stream and returns
  what is left of it.
\<close>

type_synonym rng = "nat \<Rightarrow> real"

text \<open>What the browser delivers to the game: the registered listeners and one animation frame.\<close>

datatype event =
    KeyDown string
  | KeyUp string
  | TouchStart real
  | TouchEnd
  | Resize nat nat
  | Frame rng


section \<open>Input handlers (the same text in both files)\<close>

definition handleKeyDown :: "string \<Rightarrow> ('p, 'z) game_scheme \<Rightarrow> ('p, 'z) game_scheme" where
  "handleKeyDown code g =
     (if code = ''ArrowLeft'' then g\<lparr>input := (input g)\<lparr>left := True\<rparr>\<rparr>
      else if code = ''ArrowRight'' then g\<lparr>input := (input g)\<lparr>right := True\<rparr>\<rparr>
      else if code = ''Space'' then g\<lparr>input := (input g)\<lparr>jump := True\<rparr>\<rparr>
      else g)"

definition handleKeyUp :: "string \<Rightarrow> ('p, 'z) game_scheme \<Rightarrow> ('p, 'z) game_scheme" where
  "handleKeyUp code g =
     (if code = ''ArrowLeft'' then g\<lparr>input := (input g)\<lparr>left := False\<rparr>\<rparr>
      else if code = ''ArrowRight'' then g\<lparr>input := (input g)\<lparr>right := False\<rparr>\<rparr>
      else if code = ''Space'' then g\<lparr>input := (input g)\<lparr>jump := False\<rparr>\<rparr>
      else g)"

text \<open>\<^verbatim>\<open>clientX\<close> is \<^verbatim>\<open>e.touches[0].clientX\<close>.\<close>

definition handleTouch :: "real \<Rightarrow> ('p, 'z) game_scheme \<Rightarrow> ('p, 'z) game_scheme" where
  "handleTouch clientX g =
     (if clientX < real (canvasWidth g) / 3
        then g\<lparr>input := (input g)\<lparr>left := True, right := False\<rparr>\<rparr>
      else if clientX > (real (canvasWidth g) * 2) / 3
        then g\<lparr>input := (input g)\<lparr>right := True, left := False\<rparr>\<rparr>
      else g\<lparr>input := (input g)\<lparr>jump := True\<rparr>\<rparr>)"

definition handleTouchEnd :: "('p, 'z) game_scheme \<Rightarrow> ('p, 'z) game_scheme" where
  "handleTouchEnd g = g\<lparr>input := (input g)\<lparr>left := False, right := False, jump := False\<rparr>\<rparr>"


section \<open>Double arithmetic\<close>

text \<open>
  The result of an arithmetic operation on doubles is the exact result rounded to the
  nearest double, ties to the even mantissa. \<open>roundHalfEven\<close> rounds a non-negative real
  to the nearest integer in that way.
\<close>

definition roundHalfEven :: "real \<Rightarrow> int" where
  "roundHalfEven t =
     (let f = \<lfloor>t\<rfloor>
      in if t - of_int f < 1 / 2 then f
         else if t - of_int f > 1 / 2 then f + 1
         else if even f then f else f + 1)"

text \<open>The exponent \<open>e\<close> of a positive real: \<open>2 ^ e \<le> a < 2 ^ (e + 1)\<close>.\<close>

definition binade :: "real \<Rightarrow> int" where
  "binade a = (if 1 \<le> a then bitlen \<lfloor>a\<rfloor> - 1 else - bitlen (\<lceil>1 / a\<rceil> - 1))"

text \<open>
  An operation whose rounded result is beyond the largest double yields
  \<^verbatim>\<open>Infinity\<close> or \<^verbatim>\<open>-Infinity\<close>; the real \<open>2 ^ 1024\<close>, larger than every double, stands
  for \<^verbatim>\<open>Infinity\<close>.
\<close>

definition double_infinity :: real where
  "double_infinity = 2 ^ 1024"

text \<open>
  Rounding to binary64: 53 bits of mantissa, the spacing of the doubles around \<open>a\<close> is
  \<open>2 ^ (e - 52)\<close>, and below \<open>2 ^ - 1022\<close> (the subnormal numbers) it stays \<open>2 ^ - 1074\<close>.
\<close>

definition fl :: "real \<Rightarrow> real" where
  "fl a =
     (if a = 0 then 0
      else (let e = max (binade \<bar>a\<bar>) (- 1022);
                ulp = 2 powi (e - 52);
                m = roundHalfEven (\<bar>a\<bar> / ulp)
            in if double_infinity \<le> of_int m * ulp then sgn a * double_infinity
               else sgn a * (of_int m * ulp)))"

text \<open>A real that rounding leaves as it is: a double, or what stands for an infinity.\<close>

definition is_double :: "real \<Rightarrow> bool" where
  "is_double a \<longleftrightarrow> fl a = a"

text \<open>
  \<open>a - b\<close> in doubles where \<open>a\<close> is itself the result of an operation, so possibly
  infinite, and \<open>b\<close> is finite: an infinite \<open>a\<close> stays what it is.
\<close>

definition minus_double :: "real \<Rightarrow> real \<Rightarrow> real" where
  "minus_double a b = (if \<bar>a\<bar> = double_infinity then a else fl (a - b))"


section \<open>Collision resolution (the same text in both files)\<close>

text \<open>
  The body of the \<^verbatim>\<open>for (let platform of this.platforms)\<close> loop of \<^verbatim>\<open>checkCollisions\<close>
  (game.js lines 166-178, game-loop.js lines 217-228), on the player \<open>p\<close> the loop has
  reached with. Each \<^verbatim>\<open>+\<close> and \<^verbatim>\<open>-\<close> of the code is one rounded operation.
\<close>

definition collidePlatform :: "platform \<Rightarrow> 'a player_scheme \<Rightarrow> 'a player_scheme" where
  "collidePlatform pf p =
     (if x p < fl (x pf + width pf) \<and>
         fl (x p + width p) > x pf \<and>
         y p < fl (y pf + height pf) \<and>
         fl (y p + height p) > y pf
      then (if velocityY p > 0 \<and>
               minus_double (fl (y p + height p)) (velocityY p) \<le> y pf
            then p\<lparr>y := fl (y pf - height p), velocityY := 0, isJumping := False\<rparr>
            else p)
      else p)"

text \<open>The loop itself, in list order.\<close>

fun checkPlatforms :: "platform list \<Rightarrow> 'a player_scheme \<Rightarrow> 'a player_scheme" where
  "checkPlatforms [] p = p"
| "checkPlatforms (pf # pfs) p = checkPlatforms pfs (collidePlatform pf p)"

definition checkCollisions ::
  "('a player_scheme, 'z) game_scheme \<Rightarrow> ('a player_scheme, 'z) game_scheme" where
  "checkCollisions g =
     g\<lparr>player := checkPlatforms (platforms g) ((player g)\<lparr>isJumping := True\<rparr>)\<rparr>"


section \<open>The fixed variant (game.js)\<close>

text \<open>The constructor, for \<^verbatim>\<open>window.innerWidth\<close> and \<^verbatim>\<open>window.innerHeight\<close>.\<close>

definition fixed_constructor :: "nat \<Rightarrow> nat \<Rightarrow> fixed_game" where
  "fixed_constructor innerWidth innerHeight =
     \<lparr>canvasWidth = innerWidth,
      canvasHeight = innerHeight,
      player = \<lparr>x = 100, y = 100, width = 32, height = 48,
                velocityX = 0, velocityY = 0, isJumping = False\<rparr>,
      gravity = 0.5,
      jumpForce = - 12,
      input = \<lparr>left = False, right = False, jump = False\<rparr>,
      platforms =
        [\<lparr>x = 0, y = real innerHeight - 50, width = real innerWidth, height = 50\<rparr>,
         \<lparr>x = real innerWidth * 0.3, y = real innerHeight * 0.7, width = 200, height = 20\<rparr>,
         \<lparr>x = real innerWidth * 0.1, y = real innerHeight * 0.5, width = 200, height = 20\<rparr>],
      moveSpeed = 5\<rparr>"

text \<open>
  The resize listener (lines 56-66). Writing a field of \<^verbatim>\<open>this.platforms[i]\<close> raises a
  TypeError when the list has no element \<open>i\<close>: the result is \<open>None\<close>.
\<close>

definition fixed_resize :: "nat \<Rightarrow> nat \<Rightarrow> fixed_game \<Rightarrow> fixed_game option" where
  "fixed_resize innerWidth innerHeight g =
     (if length (platforms g) < 3 then None
      else Some (g\<lparr>canvasWidth := innerWidth,
                  canvasHeight := innerHeight,
                  platforms := (platforms g)
                    [0 := (platforms g ! 0)\<lparr>width := real innerWidth,
                                            y := real innerHeight - 50\<rparr>,
                     1 := (platforms g ! 1)\<lparr>x := real innerWidth * 0.3,
                                            y := real innerHeight * 0.7\<rparr>,
                     2 := (platforms g ! 2)\<lparr>x := real innerWidth * 0.1,
                                            y := real innerHeight * 0.5\<rparr>]\<rparr>))"

text \<open>\<^verbatim>\<open>update\<close>, lines 129-155: input, jump, gravity, position, boundary checking.\<close>

definition fixed_move :: "fixed_game \<Rightarrow> fixed_game" where
  "fixed_move g =
     (let p = player g;
          p1 = p\<lparr>velocityX := (if left (input g) then - moveSpeed g
                                else if right (input g) then moveSpeed g
                                else 0)\<rparr>;
          p2 = (if jump (input g) \<and> \<not> isJumping p1
                then p1\<lparr>velocityY := jumpForce g, isJumping := True\<rparr> else p1);
          p3 = p2\<lparr>velocityY := velocityY p2 + gravity g\<rparr>;
          p4 = p3\<lparr>x := x p3 + velocityX p3, y := y p3 + velocityY p3\<rparr>;
          p5 = (if x p4 < 0 then p4\<lparr>x := 0\<rparr> else p4);
          p6 = (if x p5 + width p5 > real (canvasWidth g)
                then p5\<lparr>x := real (canvasWidth g) - width p5\<rparr> else p5)
      in g\<lparr>player := p6\<rparr>)"

text \<open>\<^verbatim>\<open>update\<close> (lines 128-158): the steps above, then \<^verbatim>\<open>checkCollisions\<close>.\<close>

definition fixed_update :: "fixed_game \<Rightarrow> fixed_game" where
  "fixed_update g = checkCollisions (fixed_move g)"

fun fixed_step :: "event \<Rightarrow> fixed_game \<Rightarrow> fixed_game option" where
  "fixed_step (KeyDown code) g = Some (handleKeyDown code g)"
| "fixed_step (KeyUp code) g = Some (handleKeyUp code g)"
| "fixed_step (TouchStart clientX) g = Some (handleTouch clientX g)"
| "fixed_step TouchEnd g = Some (handleTouchEnd g)"
| "fixed_step (Resize innerWidth innerHeight) g = fixed_resize innerWidth innerHeight g"
| "fixed_step (Frame r) g = Some (fixed_update g)"

fun fixed_run :: "event list \<Rightarrow> fixed_game \<Rightarrow> fixed_game option" where
  "fixed_run [] g = Some g"
| "fixed_run (e # es) g =
     (case fixed_step e g of None \<Rightarrow> None | Some g' \<Rightarrow> fixed_run es g')"


section \<open>The endless variant (game-loop.js)\<close>

definition randomBetween :: "real \<Rightarrow> real \<Rightarrow> rng \<Rightarrow> real \<times> rng" where
  "randomBetween mn mx r = (r 0 * (mx - mn) + mn, \<lambda>n. r (Suc n))"

definition addNewPlatform :: "real \<Rightarrow> endless_game \<Rightarrow> rng \<Rightarrow> endless_game \<times> rng" where
  "addNewPlatform startX g r =
     (let (w, r1) = randomBetween (minPlatformWidth g) (maxPlatformWidth g) r;
          (h, r2) = randomBetween (real (canvasHeight g) * 0.3)
                                  (real (canvasHeight g) * 0.7) r1
      in (g\<lparr>platforms := platforms g @
              [\<lparr>x = startX, y = h, width = w, height = platformHeight g\<rparr>]\<rparr>, r2))"

text \<open>
  The \<^verbatim>\<open>for\<close> loop of \<^verbatim>\<open>generateInitialPlatforms\<close> (lines 78-82), with the number of
  iterations still to run. The list is not empty after \<^verbatim>\<open>addNewPlatform\<close>, so its last
  element is there.
\<close>

fun generateLoop :: "nat \<Rightarrow> real \<Rightarrow> endless_game \<Rightarrow> rng \<Rightarrow> endless_game \<times> rng" where
  "generateLoop 0 nextX g r = (g, r)"
| "generateLoop (Suc n) nextX g r =
     (let (g1, r1) = addNewPlatform nextX g r;
          (gap, r2) = randomBetween (minGapWidth g1) (maxGapWidth g1) r1
      in generateLoop n (nextX + (width (last (platforms g1)) + gap)) g1 r2)"

definition generateInitialPlatforms :: "endless_game \<Rightarrow> rng \<Rightarrow> endless_game \<times> rng" where
  "generateInitialPlatforms g r =
     generateLoop 10 (real (canvasWidth g))
       (g\<lparr>platforms := platforms g @
            [\<lparr>x = 0, y = real (canvasHeight g) - 50,
              width = real (canvasWidth g) * 2, height = 50\<rparr>]\<rparr>) r"

definition endless_constructor :: "nat \<Rightarrow> nat \<Rightarrow> rng \<Rightarrow> endless_game \<times> rng" where
  "endless_constructor innerWidth innerHeight r =
     generateInitialPlatforms
       \<lparr>canvasWidth = innerWidth,
        canvasHeight = innerHeight,
        player = \<lparr>x = real innerWidth / 3, y = 100, width = 32, height = 48,
                  velocityX = 0, velocityY = 0, isJumping = False,
                  speed = 5, maxSpeed = 8\<rparr>,
        gravity = 0.5,
        jumpForce = - 12,
        input = \<lparr>left = False, right = False, jump = False\<rparr>,
        platforms = [],
        cameraX = 0,
        distance = 0,
        minPlatformWidth = 100,
        maxPlatformWidth = 300,
        minGapWidth = 100,
        maxGapWidth = 200,
        platformHeight = 20\<rparr> r"

text \<open>
  \<^verbatim>\<open>updatePlatforms\<close> (lines 197-211). When the filter leaves nothing,
  \<^verbatim>\<open>lastPlatform\<close> is \<^verbatim>\<open>undefined\<close> and reading \<^verbatim>\<open>lastPlatform.x\<close> raises a TypeError:
  the result is \<open>None\<close>. The gap is drawn before \<^verbatim>\<open>addNewPlatform\<close> runs.
\<close>

definition updatePlatforms :: "endless_game \<Rightarrow> rng \<Rightarrow> (endless_game \<times> rng) option" where
  "updatePlatforms g r =
     (let g1 = g\<lparr>platforms := filter (\<lambda>pf. x pf + width pf > cameraX g - 300) (platforms g)\<rparr>
      in if platforms g1 = [] then None
         else (let lastPlatform = last (platforms g1)
               in if x lastPlatform + width lastPlatform
                       < cameraX g1 + real (canvasWidth g1) + 500
                  then (let (gap, r1) = randomBetween (minGapWidth g1) (maxGapWidth g1) r
                        in Some (addNewPlatform
                                   (x lastPlatform + width lastPlatform + gap) g1 r1))
                  else Some (g1, r)))"

definition resetGame :: "endless_game \<Rightarrow> rng \<Rightarrow> endless_game \<times> rng" where
  "resetGame g r =
     generateInitialPlatforms
       (g\<lparr>cameraX := 0,
          distance := 0,
          player := (player g)\<lparr>x := real (canvasWidth g) / 3, y := 100,
                               velocityX := 0, velocityY := 0\<rparr>,
          platforms := []\<rparr>) r"

text \<open>\<^verbatim>\<open>update\<close>, lines 156-176: input, jump, gravity, position.\<close>

definition endless_move :: "endless_game \<Rightarrow> endless_game" where
  "endless_move g =
     (let p = player g;
          p1 = p\<lparr>velocityX := (if right (input g) then speed p
                                else if left (input g) then - speed p
                                else 0)\<rparr>;
          p2 = (if jump (input g) \<and> \<not> isJumping p1
                then p1\<lparr>velocityY := jumpForce g, isJumping := True\<rparr> else p1);
          p3 = p2\<lparr>velocityY := velocityY p2 + gravity g\<rparr>;
          p4 = p3\<lparr>x := x p3 + velocityX p3, y := y p3 + velocityY p3\<rparr>
      in g\<lparr>player := p4\<rparr>)"

text \<open>\<^verbatim>\<open>update\<close>, lines 178-183: the camera follows the player; \<^verbatim>\<open>Math.floor\<close> for the score.\<close>

definition followCamera :: "endless_game \<Rightarrow> endless_game" where
  "followCamera g =
     (if x (player g) > real (canvasWidth g) / 3
      then (let g1 = g\<lparr>cameraX := x (player g) - real (canvasWidth g) / 3\<rparr>
            in g1\<lparr>distance := real_of_int \<lfloor>cameraX g1 / 100\<rfloor>\<rparr>)
      else g)"

text \<open>
  \<^verbatim>\<open>update\<close>, lines 156-189: the two steps above, \<^verbatim>\<open>updatePlatforms\<close> and
  \<^verbatim>\<open>checkCollisions\<close>.
\<close>

definition endless_collided :: "endless_game \<Rightarrow> rng \<Rightarrow> (endless_game \<times> rng) option" where
  "endless_collided g r =
     (case updatePlatforms (followCamera (endless_move g)) r of
        None \<Rightarrow> None
      | Some (g3, r3) \<Rightarrow> Some (checkCollisions g3, r3))"

text \<open>
  \<^verbatim>\<open>update\<close> (lines 155-195): the steps above, and the reset when the player is below
  the canvas.
\<close>

definition endless_update :: "endless_game \<Rightarrow> rng \<Rightarrow> (endless_game \<times> rng) option" where
  "endless_update g r =
     (case endless_collided g r of
        None \<Rightarrow> None
      | Some (g4, r4) \<Rightarrow>
          if y (player g4) > real (canvasHeight g4)
          then Some (resetGame g4 r4)
          else Some (g4, r4))"

text \<open>game-loop.js registers no resize listener: a resize leaves the game as it is.\<close>

fun endless_step :: "event \<Rightarrow> endless_game \<Rightarrow> endless_game option" where
  "endless_step (KeyDown code) g = Some (handleKeyDown code g)"
| "endless_step (KeyUp code) g = Some (handleKeyUp code g)"
| "endless_step (TouchStart clientX) g = Some (handleTouch clientX g)"
| "endless_step TouchEnd g = Some (handleTouchEnd g)"
| "endless_step (Resize innerWidth innerHeight) g = Some g"
| "endless_step (Frame r) g = map_option fst (endless_update g r)"

fun endless_run :: "event list \<Rightarrow> endless_game \<Rightarrow> endless_game option" where
  "endless_run [] g = Some g"
| "endless_run (e # es) g =
     (case endless_step e g of None \<Rightarrow> None | Some g' \<Rightarrow> endless_run es g')"


section \<open>Vocabulary of the properties\<close>

text \<open>
  \<^verbatim>\<open>Math.random()\<close> returns a number that is at least 0 and less than 1; a stream is
  well formed when each of its outcomes is.
\<close>

definition unit_samples :: "rng \<Rightarrow> bool" where
  "unit_samples r \<longleftrightarrow> (\<forall>n. 0 \<le> r n \<and> r n < 1)"

fun unit_event :: "event \<Rightarrow> bool" where
  "unit_event (Frame r) = unit_samples r"
| "unit_event _ = True"

text \<open>The generation parameters as the constructor of game-loop.js sets them (lines 40-44).\<close>

definition standard_parameters :: "endless_game \<Rightarrow> bool" where
  "standard_parameters g \<longleftrightarrow>
     minPlatformWidth g = 100 \<and> maxPlatformWidth g = 300 \<and>
     minGapWidth g = 100 \<and> maxGapWidth g = 200 \<and> platformHeight g = 20"

text \<open>
  The specification's shape of a generated platform: width within 100 and 300, top edge
  within 0.3 and 0.7 of the canvas height, height 20.
\<close>

definition wellShaped :: "nat \<Rightarrow> platform \<Rightarrow> bool" where
  "wellShaped canvasH pf \<longleftrightarrow>
     100 \<le> width pf \<and> width pf \<le> 300 \<and>
     0.3 * real canvasH \<le> y pf \<and> y pf \<le> 0.7 * real canvasH \<and>
     height pf = 20"

text \<open>
  The specification's placement: each platform of the list starts at the right edge of the
  one before it plus a gap within 100 and 200.
\<close>

fun spaced :: "platform list \<Rightarrow> bool" where
  "spaced (a # b # rest) \<longleftrightarrow>
     100 \<le> x b - (x a + width a) \<and> x b - (x a + width a) \<le> 200 \<and> spaced (b # rest)"
| "spaced _ \<longleftrightarrow> True"

text \<open>
  The words of the landing rule. The edges are the values the code computes: the right
  and bottom edges are rounded sums, and the previous bottom edge is the bottom edge minus
  \<open>velocityY\<close>.
\<close>

definition overlaps :: "'a player_scheme \<Rightarrow> platform \<Rightarrow> bool" where
  "overlaps p pf \<longleftrightarrow>
     x p < fl (x pf + width pf) \<and> fl (x p + width p) > x pf \<and>
     y p < fl (y pf + height pf) \<and> fl (y p + height p) > y pf"

definition previousBottom :: "'a player_scheme \<Rightarrow> real" where
  "previousBottom p = minus_double (fl (y p + height p)) (velocityY p)"

text \<open>The player is falling and its previous bottom edge was at or above the top edge.\<close>

definition landsOn :: "'a player_scheme \<Rightarrow> platform \<Rightarrow> bool" where
  "landsOn p pf \<longleftrightarrow> overlaps p pf \<and> velocityY p > 0 \<and> previousBottom p \<le> y pf"



text \<open>
  The quantity the specification calls drawn uniformly from \<open>[mn, mx]\<close>: the image of an
  outcome \<open>u\<close> of \<^verbatim>\<open>Math.random()\<close>, which is uniform on [0, 1), under the increasing
  affine map of [0, 1] onto \<open>[mn, mx]\<close>.
\<close>

definition uniformBetween :: "real \<Rightarrow> real \<Rightarrow> real \<Rightarrow> real" where
  "uniformBetween mn mx u = u * (mx - mn) + mn"


text \<open>The platforms that the filter of \<^verbatim>\<open>updatePlatforms\<close> keeps.\<close>

definition keptPlatforms :: "endless_game \<Rightarrow> platform list" where
  "keptPlatforms g = filter (\<lambda>pf. x pf + width pf > cameraX g - 300) (platforms g)"

text \<open>
  What every game the endless variant reaches satisfies: the parameters and the speed are
  the constructor's, the camera is not left of the origin nor left of the player's third
  of the screen, and the last platform ends at or beyond the right edge of the screen.
\<close>

definition endless_invariant :: "endless_game \<Rightarrow> bool" where
  "endless_invariant g \<longleftrightarrow>
     standard_parameters g \<and> speed (player g) = 5 \<and>
     0 \<le> cameraX g \<and>
     x (player g) - real (canvasWidth g) / 3 \<le> cameraX g \<and>
     platforms g \<noteq> [] \<and>
     cameraX g + real (canvasWidth g)
       \<le> x (last (platforms g)) + width (last (platforms g))"


section \<open>Concrete games\<close>

text \<open>Every call of \<^verbatim>\<open>Math.random()\<close> returns 0.\<close>

definition zero_samples :: rng where
  "zero_samples = (\<lambda>n. 0)"

text \<open>The calls of \<^verbatim>\<open>Math.random()\<close> return 0, 1/4, 1/2, 3/4, 0, 1/4 and so on.\<close>

definition ramp_samples :: rng where
  "ramp_samples = (\<lambda>n. real (n mod 4) / 4)"


text \<open>
  A platform whose top edge is a double just below 512, and a player put on it by a
  landing and moved by one frame of gravity: \<open>y\<close> is the top edge minus 48 plus 0.5.
\<close>

definition high_ledge :: platform where
  "high_ledge = \<lparr>x = 0, y = 9002801208229891 / 2 ^ 44, width = 200, height = 20\<rparr>"

definition resting_player :: player where
  "resting_player = \<lparr>x = 100, y = 9002801208229891 / 2 ^ 44 - 47.5, width = 32, height = 48,
                     velocityX = 0, velocityY = 0.5, isJumping = False\<rparr>"

text \<open>A player whose bottom edge is exactly the top edge of a ledge.\<close>

definition touching_player :: player where
  "touching_player = \<lparr>x = 100, y = 52, width = 32, height = 48,
                      velocityX = 0, velocityY = 3, isJumping = True\<rparr>"

definition ledge :: platform where
  "ledge = \<lparr>x = 0, y = 100, width = 200, height = 20\<rparr>"


text \<open>
  The endless game on a canvas 900 wide and 101 high, where every call of
  \<^verbatim>\<open>Math.random()\<close> returns 0: the player starts at \<open>y = 100\<close>, beside the ground
  platform, and is below the canvas after two frames.
\<close>

definition tiny_game :: endless_game where
  "tiny_game = fst (endless_constructor 900 101 zero_samples)"

text \<open>That game after the right arrow key and one frame.\<close>

definition tiny_falling :: endless_game where
  "tiny_falling = tiny_game
     \<lparr>player := \<lparr>x = 305, y = 100.5, width = 32, height = 48,
                  velocityX = 5, velocityY = 0.5, isJumping = True,
                  speed = 5, maxSpeed = 8\<rparr>,
      input := \<lparr>left = False, right = True, jump = False\<rparr>,
      cameraX := 5\<rparr>"

text \<open>And after the steps of the next frame that come before the check of the reset.\<close>

definition tiny_fallen :: endless_game where
  "tiny_fallen = tiny_falling
     \<lparr>player := \<lparr>x = 310, y = 101.5, width = 32, height = 48,
                  velocityX = 5, velocityY = 1, isJumping = True,
                  speed = 5, maxSpeed = 8\<rparr>,
      cameraX := 10\<rparr>"


text \<open>The small game as its constructor has it before the initial generation.\<close>

definition tiny_blank :: endless_game where
  "tiny_blank = tiny_game\<lparr>platforms := []\<rparr>"

text \<open>
  The small game with the player 2000 further to the right, on the platform that starts at
  2300, and the camera after it.
\<close>

definition tiny_ahead :: endless_game where
  "tiny_ahead = tiny_game
     \<lparr>player := (player tiny_game)\<lparr>x := 2300, y := - 17.7\<rparr>,
      cameraX := 2000, distance := 20\<rparr>"


section \<open>Properties of double arithmetic\<close>

lemma roundHalfEven_of_int [simp]: "roundHalfEven (of_int n) = n"
  by (simp add: roundHalfEven_def)

lemma binade_bounds:
  assumes "0 < a"
  shows "2 powi binade a \<le> a" and "a < 2 powi (binade a + 1)"
proof -
  have "2 powi binade a \<le> a \<and> a < 2 powi (binade a + 1)"
  proof (cases "1 \<le> a")
    case True
    then have pos: "0 < \<lfloor>a\<rfloor>" by simp
    from bitlen_bounds [OF pos]
    have b: "2 ^ nat (bitlen \<lfloor>a\<rfloor> - 1) \<le> \<lfloor>a\<rfloor>" "\<lfloor>a\<rfloor> < 2 ^ nat (bitlen \<lfloor>a\<rfloor>)" by simp_all
    from pos have b1: "1 \<le> bitlen \<lfloor>a\<rfloor>" by (auto simp: bitlen_alt_def)
    have lo: "2 ^ nat (bitlen \<lfloor>a\<rfloor> - 1) \<le> a"
      using b(1) le_floor_iff [of "2 ^ nat (bitlen \<lfloor>a\<rfloor> - 1)" a] by simp
    have hi: "a < 2 ^ nat (bitlen \<lfloor>a\<rfloor>)"
      using b(2) floor_less_iff [of a "2 ^ nat (bitlen \<lfloor>a\<rfloor>)"] by simp
    from True b1 lo hi show ?thesis
      by (simp add: binade_def power_int_def)
  next
    case False
    define t where "t = 1 / a"
    from assms False have t: "1 < t" by (simp add: t_def)
    then have n: "0 < \<lceil>t\<rceil> - 1" by (simp add: less_ceiling_iff)
    define b where "b = bitlen (\<lceil>t\<rceil> - 1)"
    from bitlen_bounds [OF n]
    have bb: "2 ^ nat (b - 1) \<le> \<lceil>t\<rceil> - 1" "\<lceil>t\<rceil> - 1 < 2 ^ nat b" by (simp_all add: b_def)
    from n have b1: "1 \<le> b" by (auto simp: bitlen_alt_def b_def)
    have "2 ^ nat (b - 1) < \<lceil>t\<rceil>" using bb(1) by simp
    then have lo: "2 ^ nat (b - 1) < t"
      using less_ceiling_iff [of "2 ^ nat (b - 1)" t] by simp
    have "\<lceil>t\<rceil> \<le> 2 ^ nat b" using bb(2) by simp
    then have hi: "t \<le> 2 ^ nat b"
      using ceiling_le_iff [of t "2 ^ nat b"] by simp
    have a: "1 / t = a" using assms by (simp add: t_def)
    have e: "binade a = - b" using False by (simp add: binade_def b_def t_def)
    have q: "(2::real) powi c = 2 ^ nat c" if "0 \<le> c" for c
      using that by (simp add: power_int_def)
    have p1: "(2::real) powi (- b) = 1 / 2 ^ nat b"
      using b1 q [of b] by (simp add: power_int_minus inverse_eq_divide)
    have p2: "(2::real) powi (- b + 1) = 1 / 2 ^ nat (b - 1)"
      using power_int_minus [of "2::real" "b - 1"] b1 q [of "b - 1"]
      by (simp add: inverse_eq_divide)
    have "1 / 2 ^ nat b \<le> 1 / t" using hi t by (simp add: frac_le)
    moreover have "1 / t < 1 / 2 ^ nat (b - 1)" using lo t by (simp add: frac_less2)
    ultimately show ?thesis unfolding e p1 p2 a by simp
  qed
  then show "2 powi binade a \<le> a" and "a < 2 powi (binade a + 1)" by simp_all
qed


lemma fl_exact:
  assumes "a = of_int m * 2 powi k" and "\<bar>m\<bar> < 2 ^ 53" and "- 1074 \<le> k" and "k \<le> 971"
  shows "fl a = a"
proof (cases "m = 0")
  case True
  with assms(1) show ?thesis by (simp add: fl_def)
next
  case False
  have pk: "0 < (2::real) powi k" by simp
  have abs: "\<bar>a\<bar> = of_int \<bar>m\<bar> * 2 powi k"
    by (simp add: assms(1) abs_mult)
  from False have apos: "0 < \<bar>a\<bar>" by (simp add: assms(1))
  define e where "e = max (binade \<bar>a\<bar>) (- 1022)"
  have "real_of_int \<bar>m\<bar> < 2 ^ 53"
    using assms(2) of_int_less_iff [of "\<bar>m\<bar>" "2 ^ 53", where ?'a = real] by simp
  then have "\<bar>a\<bar> < 2 ^ 53 * 2 powi k"
    unfolding abs using pk by (simp only: mult_strict_right_mono)
  also have "\<dots> = 2 powi (53 + k)"
    by (simp add: power_int_add)
  finally have up: "\<bar>a\<bar> < 2 powi (53 + k)" .
  have "binade \<bar>a\<bar> < 53 + k"
  proof (rule ccontr)
    assume "\<not> binade \<bar>a\<bar> < 53 + k"
    then have "(2::real) powi (53 + k) \<le> 2 powi binade \<bar>a\<bar>"
      by (intro power_int_increasing) simp_all
    with binade_bounds(1) [OF apos] up show False by simp
  qed
  with assms(3) have ek: "e - 52 \<le> k" by (simp add: e_def)
  define d where "d = nat (k - (e - 52))"
  have "(2::real) powi k = 2 powi ((e - 52) + int d)"
    using ek by (simp add: d_def)
  also have "\<dots> = 2 powi (e - 52) * 2 ^ d"
    by (simp add: power_int_add)
  finally have k: "(2::real) powi k = 2 powi (e - 52) * 2 ^ d" .
  have q: "\<bar>a\<bar> / 2 powi (e - 52) = of_int (\<bar>m\<bar> * 2 ^ d)"
    unfolding abs k by simp
  have r: "of_int (\<bar>m\<bar> * 2 ^ d) * 2 powi (e - 52) = \<bar>a\<bar>"
    unfolding abs k by simp
  have "(2::real) powi (53 + k) \<le> 2 powi 1024"
    using assms(4) by (intro power_int_increasing) simp_all
  with up have fin: "\<bar>a\<bar> < double_infinity" by (simp add: double_infinity_def)
  from apos have "a \<noteq> 0" by simp
  then have "fl a = sgn a * \<bar>a\<bar>"
    using fin unfolding fl_def e_def [symmetric] Let_def q roundHalfEven_of_int r
    by simp
  then show ?thesis by (simp add: sgn_mult_abs)
qed

text \<open>Rounding a real whose exponent is known.\<close>

lemma binade_unique:
  assumes "2 powi e \<le> a" and "a < 2 powi (e + 1)"
  shows "binade a = e"
proof -
  have "0 < (2::real) powi e" by simp
  with assms(1) have apos: "0 < a" by linarith
  note b = binade_bounds [OF apos]
  have "\<not> binade a < e"
  proof
    assume "binade a < e"
    then have "(2::real) powi (binade a + 1) \<le> 2 powi e"
      by (intro power_int_increasing) simp_all
    with b(2) assms(1) show False by linarith
  qed
  moreover have "\<not> e < binade a"
  proof
    assume "e < binade a"
    then have "(2::real) powi (e + 1) \<le> 2 powi binade a"
      by (intro power_int_increasing) simp_all
    with b(1) assms(2) show False by linarith
  qed
  ultimately show ?thesis by linarith
qed

lemma fl_positive:
  assumes "2 powi e \<le> a" and "a < 2 powi (e + 1)" and "- 1022 \<le> e"
    and "of_int (roundHalfEven (a / 2 powi (e - 52))) * 2 powi (e - 52) < double_infinity"
  shows "fl a = of_int (roundHalfEven (a / 2 powi (e - 52))) * 2 powi (e - 52)"
proof -
  have "0 < (2::real) powi e" by simp
  with assms(1) have apos: "0 < a" by linarith
  have m: "max (binade \<bar>a\<bar>) (- 1022) = e"
    using binade_unique [OF assms(1,2)] apos assms(3) by simp
  from apos have "a \<noteq> 0" "\<bar>a\<bar> = a" "sgn a = 1" by simp_all
  then show ?thesis
    using assms(4) unfolding fl_def m Let_def by simp
qed

lemma fl_numeral: "numeral n < (2 ^ 53 :: int) \<Longrightarrow> fl (numeral n) = numeral n"
  using fl_exact [of "numeral n" "numeral n" 0] by simp

lemma fl_half: "numeral n < (2 ^ 53 :: int) \<Longrightarrow> fl (numeral n / 2) = numeral n / 2"
  using fl_exact [of "numeral n / 2" "numeral n" "- 1"] by (simp add: power_int_minus)

lemma fl_zero: "fl 0 = 0"
  by (simp add: fl_def)

lemma fl_one: "fl 1 = 1"
  using fl_exact [of 1 1 0] by simp

lemma fl_minus: "fl (- a) = - fl a"
  by (simp add: fl_def Let_def)

lemmas double_eval = fl_numeral fl_half fl_zero fl_one fl_minus minus_double_def double_infinity_def



section \<open>Properties of collision resolution\<close>

lemma collidePlatform_rect [simp]:
  "x (collidePlatform pf p) = x p"
  "width (collidePlatform pf p) = width p"
  "height (collidePlatform pf p) = height p"
  by (simp_all add: collidePlatform_def)

lemma checkPlatforms_rect [simp]:
  "x (checkPlatforms pfs p) = x p"
  "width (checkPlatforms pfs p) = width p"
  "height (checkPlatforms pfs p) = height p"
  by (induction pfs arbitrary: p) simp_all

lemma checkCollisions_fields [simp]:
  "platforms (checkCollisions g) = platforms g"
  "canvasWidth (checkCollisions g) = canvasWidth g"
  "canvasHeight (checkCollisions g) = canvasHeight g"
  "input (checkCollisions g) = input g"
  "gravity (checkCollisions g) = gravity g"
  "jumpForce (checkCollisions g) = jumpForce g"
  "game.more (checkCollisions g) = game.more g"
  by (simp_all add: checkCollisions_def)

lemma checkCollisions_player_rect [simp]:
  "x (player (checkCollisions g)) = x (player g)"
  "width (player (checkCollisions g)) = width (player g)"
  "height (player (checkCollisions g)) = height (player g)"
  by (simp_all add: checkCollisions_def)

lemma collidePlatform_landsOn:
  "collidePlatform pf p =
     (if landsOn p pf
      then p\<lparr>y := fl (y pf - height p), velocityY := 0, isJumping := False\<rparr>
      else p)"
  by (simp add: collidePlatform_def landsOn_def overlaps_def previousBottom_def)









text \<open>
  The landing test follows the code's rounding. The sum \<open>y + height\<close> of the player at
  rest on the high ledge lies half way between two doubles and is rounded up, so that the
  previous bottom edge comes out above the top edge it should be equal to: the player is
  not landed again.
\<close>

lemma resting_player_falls:
  "previousBottom resting_player = 9002801208229892 / 2 ^ 44"
  "\<not> landsOn resting_player high_ledge"
  "collidePlatform high_ledge resting_player = resting_player"
proof -
  have s: "y resting_player + height resting_player = 9011597301252099 / 2 ^ 44"
    by (simp add: resting_player_def)
  have a: "fl (9011597301252099 / 2 ^ 44) = 9011597301252100 / 2 ^ 44"
    by (subst fl_positive [where e = 9])
       (simp_all add: power_int_minus roundHalfEven_def double_infinity_def)
  have d: "9011597301252100 / 2 ^ 44 - velocityY resting_player
             = 9002801208229892 / 2 ^ 44"
    by (simp add: resting_player_def)
  have c: "fl (9002801208229892 / 2 ^ 44) = 9002801208229892 / 2 ^ 44"
    by (subst fl_positive [where e = 8])
       (simp_all add: power_int_minus roundHalfEven_def double_infinity_def)
  have f: "(\<bar>9011597301252100 / 2 ^ 44 :: real\<bar> = double_infinity) = False"
    by (simp add: double_infinity_def)
  show p: "previousBottom resting_player = 9002801208229892 / 2 ^ 44"
    unfolding previousBottom_def minus_double_def s a d c f by (rule if_False)
  then show l: "\<not> landsOn resting_player high_ledge"
    by (simp add: landsOn_def high_ledge_def)
  then show "collidePlatform high_ledge resting_player = resting_player"
    by (simp add: collidePlatform_landsOn)
qed

text \<open>
  C10. The four comparisons of the overlap test are strict: a player that touches the
  platform along an edge or at a corner (bottom edge on the top edge, top edge on the
  bottom edge, or a side on a side) is left as it is by that platform, and the loop goes
  on as if the platform were not there. This holds when an edge that the code computes
  equals the edge it is compared with, and so, the coordinates of player and platform
  being doubles, whenever the exact sum does.
\<close>

theorem C10_touching_is_no_collision:
  assumes "(fl (y p + height p) = y pf \<or> y p = fl (y pf + height pf) \<or>
            fl (x p + width p) = x pf \<or> x p = fl (x pf + width pf)) \<or>
           (is_double (x p) \<and> is_double (y p) \<and> is_double (x pf) \<and> is_double (y pf) \<and>
            (y p + height p = y pf \<or> y p = y pf + height pf \<or>
             x p + width p = x pf \<or> x p = x pf + width pf))"
  shows "collidePlatform pf p = p \<and> checkPlatforms (pf # pfs) p = checkPlatforms pfs p"
proof -
  from assms have "fl (y p + height p) = y pf \<or> y p = fl (y pf + height pf) \<or>
           fl (x p + width p) = x pf \<or> x p = fl (x pf + width pf)"
    by (auto simp: is_double_def)
  then have "\<not> (x p < fl (x pf + width pf) \<and> fl (x p + width p) > x pf \<and>
                       y p < fl (y pf + height pf) \<and> fl (y p + height p) > y pf)"
    by linarith
  then have "collidePlatform pf p = p"
    unfolding collidePlatform_def by (rule if_not_P)
  then show ?thesis by simp
qed

text \<open>
  A falling player, 48 high, at \<open>y = 52\<close> and a platform with its top edge at 100: the
  bottom edge is on the top edge, and the sum is exact.
\<close>

theorem C10_touching_is_no_collision_witness:
  "is_double (x touching_player) \<and> is_double (y touching_player) \<and>
   is_double (x ledge) \<and> is_double (y ledge) \<and>
   y touching_player + height touching_player = y ledge \<and>
   fl (y touching_player + height touching_player) = y ledge \<and>
   collidePlatform ledge touching_player = touching_player \<and>
   checkPlatforms [ledge] touching_player = touching_player"
proof -
  have d: "is_double (x touching_player)" "is_double (y touching_player)"
      "is_double (x ledge)" "is_double (y ledge)"
    by (simp_all add: is_double_def touching_player_def ledge_def double_eval)
  have h: "fl (y touching_player + height touching_player) = y ledge"
    by (simp add: touching_player_def ledge_def double_eval)
  have e: "y touching_player + height touching_player = y ledge"
    by (simp add: touching_player_def ledge_def)
  from C10_touching_is_no_collision [of touching_player ledge "[]"] d h e
  show ?thesis by simp
qed


section \<open>Properties of the fixed variant\<close>

text \<open>
  C9, in the form the code satisfies. When the canvas is at least as wide as the player, the
  player is horizontally within the canvas after every update of the fixed variant.
\<close>

theorem C9_player_within_canvas:
  assumes "width (player g) \<le> real (canvasWidth g)"
  shows "0 \<le> x (player (fixed_update g)) \<and>
         x (player (fixed_update g)) + width (player (fixed_update g))
           \<le> real (canvasWidth (fixed_update g))"
  using assms by (simp add: fixed_update_def fixed_move_def Let_def)

theorem C9_player_within_canvas_witness:
  "width (player (fixed_constructor 800 600)) \<le> real (canvasWidth (fixed_constructor 800 600)) \<and>
   0 \<le> x (player (fixed_update (fixed_constructor 800 600))) \<and>
   x (player (fixed_update (fixed_constructor 800 600)))
     + width (player (fixed_update (fixed_constructor 800 600)))
     \<le> real (canvasWidth (fixed_update (fixed_constructor 800 600)))"
proof -
  have h: "width (player (fixed_constructor 800 600))
             \<le> real (canvasWidth (fixed_constructor 800 600))"
    by (simp add: fixed_constructor_def)
  from C9_player_within_canvas [OF h] h show ?thesis by simp
qed

text \<open>
  C9 as the specification states it fails on a canvas 20 wide: the second boundary check
  moves the player, 32 wide, to \<open>x = 20 - 32\<close>.
\<close>

theorem C9_narrow_canvas_counterexample:
  "x (player (fixed_update (fixed_constructor 20 600))) < 0"
  by (simp add: fixed_update_def fixed_move_def Let_def fixed_constructor_def)

lemma fixed_update_platforms [simp]: "platforms (fixed_update g) = platforms g"
  by (simp add: fixed_update_def fixed_move_def Let_def)

lemma handlers_platforms [simp]:
  "platforms (handleKeyDown code g) = platforms g"
  "platforms (handleKeyUp code g) = platforms g"
  "platforms (handleTouch clientX g) = platforms g"
  "platforms (handleTouchEnd g) = platforms g"
  by (simp_all add: handleKeyDown_def handleKeyUp_def handleTouch_def handleTouchEnd_def)

lemma fixed_step_three:
  assumes "length (platforms g) = 3"
  shows "\<exists>g'. fixed_step e g = Some g' \<and> length (platforms g') = 3"
  using assms by (cases e) (simp_all add: fixed_resize_def)

lemma fixed_run_three:
  assumes "length (platforms g) = 3"
  shows "\<exists>g'. fixed_run evs g = Some g' \<and> length (platforms g') = 3"
  using assms
proof (induction evs arbitrary: g)
  case Nil
  then show ?case by simp
next
  case (Cons e evs)
  from fixed_step_three [OF Cons.prems, of e]
  obtain g1 where g1: "fixed_step e g = Some g1" "length (platforms g1) = 3" by blast
  from Cons.IH [OF g1(2)] g1(1) show ?case by simp
qed

text \<open>
  C6. In the fixed variant the platform list always holds exactly three platforms: the
  constructor builds three, every handler and every update returns (none raises) and
  leaves three, the update and the input handlers leave the list as it is, and the resize
  handler re-positions the three (the ground's width and \<open>y\<close>, the \<open>x\<close> and \<open>y\<close> of the
  two others).
\<close>

theorem C6_three_platforms:
  fixes h :: fixed_game
  shows "(\<exists>g. fixed_run evs (fixed_constructor innerWidth innerHeight) = Some g \<and>
              length (platforms g) = 3) \<and>
         platforms (fixed_update h) = platforms h \<and>
         platforms (handleKeyDown code h) = platforms h \<and>
         platforms (handleKeyUp code h) = platforms h \<and>
         platforms (handleTouch clientX h) = platforms h \<and>
         platforms (handleTouchEnd h) = platforms h \<and>
         (platforms h = [a, b, c] \<longrightarrow>
            map_option platforms (fixed_resize w' h' h) =
              Some [a\<lparr>width := real w', y := real h' - 50\<rparr>,
                    b\<lparr>x := real w' * 0.3, y := real h' * 0.7\<rparr>,
                    c\<lparr>x := real w' * 0.1, y := real h' * 0.5\<rparr>])"
proof -
  have "length (platforms (fixed_constructor innerWidth innerHeight)) = 3"
    by (simp add: fixed_constructor_def)
  from fixed_run_three [OF this, of evs] show ?thesis
    by (simp add: fixed_resize_def)
qed

text \<open>The constructor's three platforms on 800 by 600, resized to 1024 by 768.\<close>

theorem C6_three_platforms_witness:
  "platforms (fixed_constructor 800 600) =
     [\<lparr>x = 0, y = 550, width = 800, height = 50\<rparr>,
      \<lparr>x = 240, y = 420, width = 200, height = 20\<rparr>,
      \<lparr>x = 80, y = 300, width = 200, height = 20\<rparr>] \<and>
   map_option platforms (fixed_resize 1024 768 (fixed_constructor 800 600)) =
     Some [\<lparr>x = 0, y = 718, width = 1024, height = 50\<rparr>,
           \<lparr>x = 307.2, y = 537.6, width = 200, height = 20\<rparr>,
           \<lparr>x = 102.4, y = 384, width = 200, height = 20\<rparr>]"
proof -
  have p: "platforms (fixed_constructor 800 600) =
     [\<lparr>x = 0, y = 550, width = 800, height = 50\<rparr>,
      \<lparr>x = 240, y = 420, width = 200, height = 20\<rparr>,
      \<lparr>x = 80, y = 300, width = 200, height = 20\<rparr>]"
    by (simp add: fixed_constructor_def)
  from C6_three_platforms [of "[]" 800 600 "fixed_constructor 800 600" "''Space''" 0
      "\<lparr>x = 0, y = 550, width = 800, height = 50\<rparr>"
      "\<lparr>x = 240, y = 420, width = 200, height = 20\<rparr>"
      "\<lparr>x = 80, y = 300, width = 200, height = 20\<rparr>" 1024 768] p
  show ?thesis by simp
qed


section \<open>Properties of the endless variant\<close>

subsection \<open>Evaluating the concrete games\<close>

lemma generateLoop_numeral:
  "generateLoop (numeral k) nextX g r =
     (let (g1, r1) = addNewPlatform nextX g r;
          (gap, r2) = randomBetween (minGapWidth g1) (maxGapWidth g1) r1
      in generateLoop (pred_numeral k) (nextX + (width (last (platforms g1)) + gap)) g1 r2)"
  by (simp add: numeral_eq_Suc)

lemma zero_samples_at: "zero_samples n = 0"
  by (simp add: zero_samples_def)

lemma zero_samples_const: "(\<lambda>n. 0) = zero_samples"
  by (simp add: zero_samples_def)

lemma unit_zero_samples: "unit_samples zero_samples"
  by (simp add: unit_samples_def zero_samples_def)

lemmas endless_eval =
  handleKeyDown_def endless_update_def endless_collided_def endless_move_def followCamera_def
  updatePlatforms_def checkCollisions_def collidePlatform_def Let_def resetGame_def
  generateInitialPlatforms_def generateLoop_numeral addNewPlatform_def randomBetween_def
  zero_samples_at zero_samples_const double_eval

lemma tiny_game_eq:
  "tiny_game =
     \<lparr>canvasWidth = 900, canvasHeight = 101,
      player = \<lparr>x = 300, y = 100, width = 32, height = 48,
                velocityX = 0, velocityY = 0, isJumping = False, speed = 5, maxSpeed = 8\<rparr>,
      gravity = 0.5, jumpForce = - 12,
      input = \<lparr>left = False, right = False, jump = False\<rparr>,
      platforms =
        [\<lparr>x = 0, y = 51, width = 1800, height = 50\<rparr>,
         \<lparr>x = 900, y = 30.3, width = 100, height = 20\<rparr>,
         \<lparr>x = 1100, y = 30.3, width = 100, height = 20\<rparr>,
         \<lparr>x = 1300, y = 30.3, width = 100, height = 20\<rparr>,
         \<lparr>x = 1500, y = 30.3, width = 100, height = 20\<rparr>,
         \<lparr>x = 1700, y = 30.3, width = 100, height = 20\<rparr>,
         \<lparr>x = 1900, y = 30.3, width = 100, height = 20\<rparr>,
         \<lparr>x = 2100, y = 30.3, width = 100, height = 20\<rparr>,
         \<lparr>x = 2300, y = 30.3, width = 100, height = 20\<rparr>,
         \<lparr>x = 2500, y = 30.3, width = 100, height = 20\<rparr>,
         \<lparr>x = 2700, y = 30.3, width = 100, height = 20\<rparr>],
      cameraX = 0, distance = 0,
      minPlatformWidth = 100, maxPlatformWidth = 300,
      minGapWidth = 100, maxGapWidth = 200, platformHeight = 20\<rparr>"
  by (simp add: tiny_game_def endless_constructor_def endless_eval)

lemma tiny_collided1:
  "endless_collided (handleKeyDown ''ArrowRight'' tiny_game) zero_samples
     = Some (tiny_falling, zero_samples)"
  by (simp add: tiny_falling_def tiny_game_eq endless_eval)

lemma tiny_update1:
  "endless_update (handleKeyDown ''ArrowRight'' tiny_game) zero_samples
     = Some (tiny_falling, zero_samples)"
  by (simp add: endless_update_def tiny_collided1) (simp add: tiny_falling_def tiny_game_eq)

lemma tiny_collided2:
  "endless_collided tiny_falling zero_samples = Some (tiny_fallen, zero_samples)"
  by (simp add: tiny_fallen_def tiny_falling_def tiny_game_eq endless_eval)

lemma tiny_update2:
  "endless_update tiny_falling zero_samples = Some (tiny_game\<lparr>input := input tiny_falling,
                       player := (player tiny_game)\<lparr>isJumping := True\<rparr>\<rparr>, zero_samples)"
  by (simp add: endless_update_def tiny_collided2)
     (simp add: tiny_fallen_def tiny_falling_def tiny_game_eq endless_eval)

lemma tiny_run1:
  "endless_run [KeyDown ''ArrowRight'', Frame zero_samples]
     (fst (endless_constructor 900 101 zero_samples)) = Some tiny_falling"
  by (simp add: tiny_game_def [symmetric] tiny_update1)


lemma unit_ramp_samples: "unit_samples ramp_samples"
  by (simp add: unit_samples_def ramp_samples_def)

lemma standard_tiny_game: "standard_parameters tiny_game"
  by (simp add: tiny_game_eq standard_parameters_def)

lemma kept_tiny_ahead:
  "keptPlatforms tiny_ahead =
     [\<lparr>x = 0, y = 51, width = 1800, height = 50\<rparr>,
      \<lparr>x = 1700, y = 30.3, width = 100, height = 20\<rparr>,
      \<lparr>x = 1900, y = 30.3, width = 100, height = 20\<rparr>,
      \<lparr>x = 2100, y = 30.3, width = 100, height = 20\<rparr>,
      \<lparr>x = 2300, y = 30.3, width = 100, height = 20\<rparr>,
      \<lparr>x = 2500, y = 30.3, width = 100, height = 20\<rparr>,
      \<lparr>x = 2700, y = 30.3, width = 100, height = 20\<rparr>]"
  by (simp add: keptPlatforms_def tiny_ahead_def tiny_game_eq)


subsection \<open>What the steps leave as it is\<close>

lemma collidePlatform_speed [simp]:
  "speed (collidePlatform pf p) = speed p"
  by (simp add: collidePlatform_def)

lemma checkPlatforms_speed [simp]:
  "speed (checkPlatforms pfs p) = speed p"
  by (induction pfs arbitrary: p) simp_all

lemma checkCollisions_speed [simp]:
  "speed (player (checkCollisions g)) = speed (player g)"
  by (simp add: checkCollisions_def)

lemma endless_checkCollisions_fields [simp]:
  "cameraX (checkCollisions g) = cameraX g"
  "distance (checkCollisions g) = distance g"
  "standard_parameters (checkCollisions g) = standard_parameters g"
  by (simp_all add: checkCollisions_def standard_parameters_def)

lemma endless_move_fields [simp]:
  "platforms (endless_move g) = platforms g"
  "canvasWidth (endless_move g) = canvasWidth g"
  "canvasHeight (endless_move g) = canvasHeight g"
  "cameraX (endless_move g) = cameraX g"
  "distance (endless_move g) = distance g"
  "standard_parameters (endless_move g) = standard_parameters g"
  "speed (player (endless_move g)) = speed (player g)"
  by (simp_all add: endless_move_def Let_def standard_parameters_def)

lemma endless_move_x:
  "x (player (endless_move g)) =
     x (player g) + (if right (input g) then speed (player g)
                     else if left (input g) then - speed (player g) else 0)"
  by (simp add: endless_move_def Let_def)

lemma followCamera_fields [simp]:
  "platforms (followCamera g) = platforms g"
  "canvasWidth (followCamera g) = canvasWidth g"
  "canvasHeight (followCamera g) = canvasHeight g"
  "player (followCamera g) = player g"
  "standard_parameters (followCamera g) = standard_parameters g"
  by (simp_all add: followCamera_def Let_def standard_parameters_def)

lemma followCamera_cameraX:
  "cameraX (followCamera g) =
     (if x (player g) > real (canvasWidth g) / 3
      then x (player g) - real (canvasWidth g) / 3 else cameraX g)"
  by (simp add: followCamera_def Let_def)

lemma addNewPlatform_other [simp]:
  "canvasWidth (fst (addNewPlatform startX g r)) = canvasWidth g"
  "canvasHeight (fst (addNewPlatform startX g r)) = canvasHeight g"
  "player (fst (addNewPlatform startX g r)) = player g"
  "cameraX (fst (addNewPlatform startX g r)) = cameraX g"
  "distance (fst (addNewPlatform startX g r)) = distance g"
  "input (fst (addNewPlatform startX g r)) = input g"
  "standard_parameters (fst (addNewPlatform startX g r)) = standard_parameters g"
  by (simp_all add: addNewPlatform_def randomBetween_def standard_parameters_def)


subsection \<open>Platform generation\<close>

lemma sample_between:
  assumes "unit_samples r" and "mn \<le> mx"
  shows "mn \<le> r k * (mx - mn) + mn" and "r k * (mx - mn) + mn \<le> mx"
proof -
  from assms(1) have u: "0 \<le> r k" "r k \<le> 1" by (simp_all add: unit_samples_def less_imp_le)
  from assms(2) have d: "0 \<le> mx - mn" by simp
  from u(1) d have "0 \<le> r k * (mx - mn)" by (rule mult_nonneg_nonneg)
  then show "mn \<le> r k * (mx - mn) + mn" by simp
  from u(2) d have "r k * (mx - mn) \<le> 1 * (mx - mn)" by (rule mult_right_mono)
  then show "r k * (mx - mn) + mn \<le> mx" by simp
qed

lemma addNewPlatform_eq:
  "addNewPlatform startX g r =
     (g\<lparr>platforms := platforms g @
          [\<lparr>x = startX,
            y = r 1 * (real (canvasHeight g) * 0.7 - real (canvasHeight g) * 0.3)
                  + real (canvasHeight g) * 0.3,
            width = r 0 * (maxPlatformWidth g - minPlatformWidth g) + minPlatformWidth g,
            height = platformHeight g\<rparr>]\<rparr>,
      \<lambda>n. r (Suc (Suc n)))"
  by (simp add: addNewPlatform_def randomBetween_def)

lemma addNewPlatform_shape:
  assumes "unit_samples r" and "standard_parameters g"
  shows "\<exists>pf. addNewPlatform startX g r = (g\<lparr>platforms := platforms g @ [pf]\<rparr>, \<lambda>n. r (Suc (Suc n)))
            \<and> x pf = startX \<and> wellShaped (canvasHeight g) pf"
proof -
  define pf :: platform where "pf =
     \<lparr>x = startX,
      y = r 1 * (real (canvasHeight g) * 0.7 - real (canvasHeight g) * 0.3)
            + real (canvasHeight g) * 0.3,
      width = r 0 * (maxPlatformWidth g - minPlatformWidth g) + minPlatformWidth g,
      height = platformHeight g\<rparr>"
  have h: "real (canvasHeight g) * 0.3 \<le> real (canvasHeight g) * 0.7" by simp
  have w: "minPlatformWidth g \<le> maxPlatformWidth g"
    using assms(2) by (simp add: standard_parameters_def)
  have "wellShaped (canvasHeight g) pf"
    using sample_between [OF assms(1) h, of 1] sample_between [OF assms(1) w, of 0] assms(2)
    by (simp add: wellShaped_def standard_parameters_def pf_def)
  moreover have "addNewPlatform startX g r
      = (g\<lparr>platforms := platforms g @ [pf]\<rparr>, \<lambda>n. r (Suc (Suc n)))"
    by (simp add: addNewPlatform_eq pf_def)
  moreover have "x pf = startX" by (simp add: pf_def)
  ultimately show ?thesis by blast
qed

lemma generateLoop_shape:
  assumes "unit_samples r" and "standard_parameters g"
  shows "\<exists>new r'. generateLoop n nextX g r = (g\<lparr>platforms := platforms g @ new\<rparr>, r')
           \<and> unit_samples r' \<and> length new = n
           \<and> (\<forall>pf\<in>set new. wellShaped (canvasHeight g) pf \<and> nextX \<le> x pf)
           \<and> spaced new
           \<and> (new \<noteq> [] \<longrightarrow> x (hd new) = nextX)"
  using assms
proof (induction n arbitrary: nextX g r)
  case 0
  then show ?case by simp
next
  case (Suc n)
  from addNewPlatform_shape [OF Suc.prems, of nextX]
  obtain pf where pf: "addNewPlatform nextX g r
        = (g\<lparr>platforms := platforms g @ [pf]\<rparr>, \<lambda>n. r (Suc (Suc n)))"
      "x pf = nextX" "wellShaped (canvasHeight g) pf"
    by blast
  define g1 where "g1 = g\<lparr>platforms := platforms g @ [pf]\<rparr>"
  define gap where "gap = r 2 * (maxGapWidth g - minGapWidth g) + minGapWidth g"
  define r2 where "r2 = (\<lambda>n. r (Suc (Suc (Suc n))))"
  have g1: "standard_parameters g1" "canvasHeight g1 = canvasHeight g"
    using Suc.prems(2) by (simp_all add: g1_def standard_parameters_def)
  have r2: "unit_samples r2"
    using Suc.prems(1) by (simp add: r2_def unit_samples_def)
  have gap: "100 \<le> gap" "gap \<le> 200"
    using sample_between [OF Suc.prems(1), of "minGapWidth g" "maxGapWidth g" 2] Suc.prems(2)
    by (simp_all add: gap_def standard_parameters_def)
  have step: "generateLoop (Suc n) nextX g r = generateLoop n (nextX + (width pf + gap)) g1 r2"
    by (simp add: pf(1) randomBetween_def g1_def gap_def r2_def numeral_2_eq_2)
  from Suc.IH [OF r2 g1(1), of "nextX + (width pf + gap)"]
  obtain new r' where new: "generateLoop n (nextX + (width pf + gap)) g1 r2
        = (g1\<lparr>platforms := platforms g1 @ new\<rparr>, r')"
      "unit_samples r'" "length new = n"
      "\<forall>q\<in>set new. wellShaped (canvasHeight g1) q \<and> nextX + (width pf + gap) \<le> x q"
      "spaced new" "new \<noteq> [] \<longrightarrow> x (hd new) = nextX + (width pf + gap)"
    by blast
  have wpf: "100 \<le> width pf" using pf(3) by (simp add: wellShaped_def)
  have sp: "spaced (pf # new)"
  proof (cases new)
    case Nil
    then show ?thesis by simp
  next
    case (Cons b rest)
    with new(5,6) gap pf(2) show ?thesis by simp
  qed
  have "generateLoop (Suc n) nextX g r = (g\<lparr>platforms := platforms g @ (pf # new)\<rparr>, r')"
    unfolding step new(1) by (simp add: g1_def)
  moreover have "\<forall>q\<in>set (pf # new). wellShaped (canvasHeight g) q \<and> nextX \<le> x q"
    using new(4) pf(2,3) wpf gap g1(2) by auto
  ultimately show ?case
    using new(2,3) sp pf(2)
    by (intro exI [of _ "pf # new"] exI [of _ r']) simp
qed

lemma generateInitialPlatforms_shape:
  assumes "unit_samples r" and "standard_parameters g"
  shows "\<exists>new r'. generateInitialPlatforms g r
            = (g\<lparr>platforms := platforms g @
                   \<lparr>x = 0, y = real (canvasHeight g) - 50,
                    width = real (canvasWidth g) * 2, height = 50\<rparr> # new\<rparr>, r')
           \<and> unit_samples r' \<and> length new = 10
           \<and> (\<forall>pf\<in>set new. wellShaped (canvasHeight g) pf \<and> real (canvasWidth g) \<le> x pf)
           \<and> spaced new
           \<and> x (hd new) = real (canvasWidth g)"
proof -
  define g0 where "g0 = g\<lparr>platforms := platforms g @
            [\<lparr>x = 0, y = real (canvasHeight g) - 50,
              width = real (canvasWidth g) * 2, height = 50\<rparr>]\<rparr>"
  have g0: "standard_parameters g0" "canvasHeight g0 = canvasHeight g"
    using assms(2) by (simp_all add: g0_def standard_parameters_def)
  from generateLoop_shape [OF assms(1) g0(1), of 10 "real (canvasWidth g)"]
  obtain new r' where new: "generateLoop 10 (real (canvasWidth g)) g0 r
        = (g0\<lparr>platforms := platforms g0 @ new\<rparr>, r')"
      "unit_samples r'" "length new = 10"
      "\<forall>q\<in>set new. wellShaped (canvasHeight g0) q \<and> real (canvasWidth g) \<le> x q"
      "spaced new" "new \<noteq> [] \<longrightarrow> x (hd new) = real (canvasWidth g)"
    by blast
  from new(3) have ne: "new \<noteq> []" by auto
  have "generateInitialPlatforms g r = (g\<lparr>platforms := platforms g @
                   \<lparr>x = 0, y = real (canvasHeight g) - 50,
                    width = real (canvasWidth g) * 2, height = 50\<rparr> # new\<rparr>, r')"
    unfolding generateInitialPlatforms_def using new(1) by (simp add: g0_def)
  then show ?thesis
    using new(2-5) new(6) ne g0(2) by (intro exI [of _ new] exI [of _ r']) simp
qed

lemma updatePlatforms_eq:
  assumes "keptPlatforms g \<noteq> []"
  shows "updatePlatforms g r =
     (if x (last (keptPlatforms g)) + width (last (keptPlatforms g))
           < cameraX g + real (canvasWidth g) + 500
      then Some (g\<lparr>platforms := keptPlatforms g @
                    [\<lparr>x = x (last (keptPlatforms g)) + width (last (keptPlatforms g))
                           + (r 0 * (maxGapWidth g - minGapWidth g) + minGapWidth g),
                      y = r 2 * (real (canvasHeight g) * 0.7 - real (canvasHeight g) * 0.3)
                            + real (canvasHeight g) * 0.3,
                      width = r 1 * (maxPlatformWidth g - minPlatformWidth g)
                                + minPlatformWidth g,
                      height = platformHeight g\<rparr>]\<rparr>,
                 \<lambda>n. r (Suc (Suc (Suc n))))
      else Some (g\<lparr>platforms := keptPlatforms g\<rparr>, r))"
  using assms
  by (simp add: updatePlatforms_def keptPlatforms_def Let_def randomBetween_def
      addNewPlatform_eq numeral_2_eq_2)

lemma updatePlatforms_shape:
  assumes "unit_samples r" and "standard_parameters g" and "keptPlatforms g \<noteq> []"
  shows "\<exists>new r'. updatePlatforms g r = Some (g\<lparr>platforms := keptPlatforms g @ new\<rparr>, r')
           \<and> unit_samples r'
           \<and> (if x (last (keptPlatforms g)) + width (last (keptPlatforms g))
                   < cameraX g + real (canvasWidth g) + 500
               then \<exists>pf. new = [pf] \<and> wellShaped (canvasHeight g) pf
                          \<and> spaced [last (keptPlatforms g), pf]
               else new = [])"
proof (cases "x (last (keptPlatforms g)) + width (last (keptPlatforms g))
                < cameraX g + real (canvasWidth g) + 500")
  case False
  with assms show ?thesis
    by (intro exI [of _ "[]"] exI [of _ r]) (simp add: updatePlatforms_eq)
next
  case True
  define pf :: platform where "pf =
     \<lparr>x = x (last (keptPlatforms g)) + width (last (keptPlatforms g))
            + (r 0 * (maxGapWidth g - minGapWidth g) + minGapWidth g),
      y = r 2 * (real (canvasHeight g) * 0.7 - real (canvasHeight g) * 0.3)
            + real (canvasHeight g) * 0.3,
      width = r 1 * (maxPlatformWidth g - minPlatformWidth g) + minPlatformWidth g,
      height = platformHeight g\<rparr>"
  have h: "real (canvasHeight g) * 0.3 \<le> real (canvasHeight g) * 0.7" by simp
  have w: "minPlatformWidth g \<le> maxPlatformWidth g" "minGapWidth g \<le> maxGapWidth g"
    using assms(2) by (simp_all add: standard_parameters_def)
  have "wellShaped (canvasHeight g) pf"
    using sample_between [OF assms(1) h, of 2] sample_between [OF assms(1) w(1), of 1] assms(2)
    by (simp add: wellShaped_def standard_parameters_def pf_def)
  moreover have "spaced [last (keptPlatforms g), pf]"
    using sample_between [OF assms(1) w(2), of 0] assms(2)
    by (simp add: standard_parameters_def pf_def)
  moreover have "updatePlatforms g r
       = Some (g\<lparr>platforms := keptPlatforms g @ [pf]\<rparr>, \<lambda>n. r (Suc (Suc (Suc n))))"
    using True assms(3) by (simp add: updatePlatforms_eq pf_def)
  moreover have "unit_samples (\<lambda>n. r (Suc (Suc (Suc n))))"
    using assms(1) by (simp add: unit_samples_def)
  ultimately show ?thesis
    using True by (intro exI [of _ "[pf]"] exI [of _ "\<lambda>n. r (Suc (Suc (Suc n)))"]) simp
qed

lemma uniformBetween_range:
  assumes "unit_samples r" and "mn \<le> mx"
  shows "mn \<le> uniformBetween mn mx (r k)" and "uniformBetween mn mx (r k) \<le> mx"
  using sample_between [OF assms, of k] by (simp_all add: uniformBetween_def)

lemma generateLoop_drawn:
  "\<exists>new. generateLoop n nextX g r = (g\<lparr>platforms := platforms g @ new\<rparr>, \<lambda>k. r (k + 3 * n))
     \<and> length new = n
     \<and> (\<forall>i<n. width (new ! i)
                 = uniformBetween (minPlatformWidth g) (maxPlatformWidth g) (r (3 * i))
             \<and> y (new ! i)
                 = uniformBetween (real (canvasHeight g) * 0.3) (real (canvasHeight g) * 0.7)
                     (r (3 * i + 1))
             \<and> height (new ! i) = platformHeight g)
     \<and> (0 < n \<longrightarrow> x (new ! 0) = nextX)
     \<and> (\<forall>i. Suc i < n \<longrightarrow>
           x (new ! Suc i) = x (new ! i) + (width (new ! i)
             + uniformBetween (minGapWidth g) (maxGapWidth g) (r (3 * i + 2))))"
proof (induction n arbitrary: nextX g r)
  case 0
  show ?case by simp
next
  case (Suc n)
  define pf :: platform where "pf =
     \<lparr>x = nextX,
      y = uniformBetween (real (canvasHeight g) * 0.3) (real (canvasHeight g) * 0.7) (r 1),
      width = uniformBetween (minPlatformWidth g) (maxPlatformWidth g) (r 0),
      height = platformHeight g\<rparr>"
  define g1 where "g1 = g\<lparr>platforms := platforms g @ [pf]\<rparr>"
  define gap where "gap = uniformBetween (minGapWidth g) (maxGapWidth g) (r 2)"
  define r3 where "r3 = (\<lambda>k. r (k + 3))"
  have step: "generateLoop (Suc n) nextX g r = generateLoop n (nextX + (width pf + gap)) g1 r3"
    by (simp add: addNewPlatform_eq randomBetween_def uniformBetween_def pf_def g1_def gap_def
        r3_def numeral_2_eq_2 numeral_3_eq_3)
  from Suc.IH [of "nextX + (width pf + gap)" g1 r3]
  obtain new where new:
      "generateLoop n (nextX + (width pf + gap)) g1 r3
         = (g1\<lparr>platforms := platforms g1 @ new\<rparr>, \<lambda>k. r3 (k + 3 * n))"
      "length new = n"
      "\<forall>i<n. width (new ! i)
                 = uniformBetween (minPlatformWidth g1) (maxPlatformWidth g1) (r3 (3 * i))
             \<and> y (new ! i)
                 = uniformBetween (real (canvasHeight g1) * 0.3) (real (canvasHeight g1) * 0.7)
                     (r3 (3 * i + 1))
             \<and> height (new ! i) = platformHeight g1"
      "0 < n \<longrightarrow> x (new ! 0) = nextX + (width pf + gap)"
      "\<forall>i. Suc i < n \<longrightarrow>
           x (new ! Suc i) = x (new ! i) + (width (new ! i)
             + uniformBetween (minGapWidth g1) (maxGapWidth g1) (r3 (3 * i + 2)))"
    by blast
  have eq: "generateLoop (Suc n) nextX g r
      = (g\<lparr>platforms := platforms g @ (pf # new)\<rparr>, \<lambda>k. r (k + 3 * Suc n))"
    unfolding step new(1) by (simp add: g1_def r3_def add.commute add.left_commute)
  have shape: "width ((pf # new) ! i)
                 = uniformBetween (minPlatformWidth g) (maxPlatformWidth g) (r (3 * i))
             \<and> y ((pf # new) ! i)
                 = uniformBetween (real (canvasHeight g) * 0.3) (real (canvasHeight g) * 0.7)
                     (r (3 * i + 1))
             \<and> height ((pf # new) ! i) = platformHeight g" if "i < Suc n" for i
  proof (cases i)
    case 0
    then show ?thesis by (simp add: pf_def)
  next
    case (Suc j)
    with that have "j < n" by simp
    with new(3) Suc show ?thesis
      by (simp add: g1_def r3_def add.commute add.left_commute)
  qed
  have chain: "x ((pf # new) ! Suc i) = x ((pf # new) ! i) + (width ((pf # new) ! i)
             + uniformBetween (minGapWidth g) (maxGapWidth g) (r (3 * i + 2)))"
    if "Suc i < Suc n" for i
  proof (cases i)
    case 0
    with that new(4) show ?thesis by (simp add: pf_def gap_def numeral_2_eq_2)
  next
    case (Suc j)
    with that have "Suc j < n" by simp
    with new(5) Suc show ?thesis
      by (simp add: g1_def r3_def add.commute add.left_commute)
  qed
  from eq new(2) shape chain show ?case
    by (intro exI [of _ "pf # new"]) (simp add: pf_def)
qed

text \<open>
  C3, in the form the code satisfies. In the endless variant, with the constructor's
  parameters and outcomes of \<^verbatim>\<open>Math.random()\<close> in [0, 1): the initial generation appends
  the ground platform (\<open>x = 0\<close>, \<open>y\<close> the canvas height minus 50, twice the canvas wide,
  50 high) and then ten platforms. Platform \<open>i\<close> of the ten has its width drawn
  uniformly from [100, 300] (and within these bounds), its \<open>y\<close> drawn uniformly between
  the code's \<^verbatim>\<open>canvas.height * 0.3\<close> and \<^verbatim>\<open>canvas.height * 0.7\<close>, and height 20; the
  first of the ten starts at \<open>x\<close> = the canvas width, and each later one at the \<open>x\<close> of
  the one before it plus its width and a gap drawn uniformly from [100, 200] (and within
  these bounds). Every draw takes an outcome of its own: outcomes \<open>3 i\<close>, \<open>3 i + 1\<close> and
  \<open>3 i + 2\<close> of the stream for the width, the \<open>y\<close> and the gap after platform \<open>i\<close>,
  thirty in all. When \<^verbatim>\<open>updatePlatforms\<close> appends a platform, it starts at the right edge
  of the last kept platform plus a gap drawn uniformly from [100, 200], its width and
  \<open>y\<close> are drawn as above, from the next three outcomes, and its height is 20.
\<close>

theorem C3_generated_platforms:
  assumes "unit_samples r" and "standard_parameters g"
  shows
    "(\<exists>new. generateInitialPlatforms g r
              = (g\<lparr>platforms := platforms g @
                     \<lparr>x = 0, y = real (canvasHeight g) - 50,
                      width = real (canvasWidth g) * 2, height = 50\<rparr> # new\<rparr>,
                 \<lambda>k. r (k + 30)) \<and>
        length new = 10 \<and>
        x (new ! 0) = real (canvasWidth g) \<and>
        (\<forall>i<10. width (new ! i) = uniformBetween 100 300 (r (3 * i)) \<and>
                100 \<le> width (new ! i) \<and> width (new ! i) \<le> 300 \<and>
                y (new ! i)
                  = uniformBetween (real (canvasHeight g) * 0.3) (real (canvasHeight g) * 0.7)
                      (r (3 * i + 1)) \<and>
                height (new ! i) = 20) \<and>
        (\<forall>i<9. x (new ! Suc i)
                 = x (new ! i) + (width (new ! i) + uniformBetween 100 200 (r (3 * i + 2))) \<and>
               100 \<le> uniformBetween 100 200 (r (3 * i + 2)) \<and>
               uniformBetween 100 200 (r (3 * i + 2)) \<le> 200)) \<and>
     (keptPlatforms g \<noteq> [] \<longrightarrow>
        (let edge = x (last (keptPlatforms g)) + width (last (keptPlatforms g));
             gap = uniformBetween 100 200 (r 0);
             pf = \<lparr>x = edge + gap,
                   y = uniformBetween (real (canvasHeight g) * 0.3)
                         (real (canvasHeight g) * 0.7) (r 2),
                   width = uniformBetween 100 300 (r 1),
                   height = 20\<rparr>
         in updatePlatforms g r
              = (if edge < cameraX g + real (canvasWidth g) + 500
                 then Some (g\<lparr>platforms := keptPlatforms g @ [pf]\<rparr>, \<lambda>k. r (k + 3))
                 else Some (g\<lparr>platforms := keptPlatforms g\<rparr>, r)) \<and>
            100 \<le> gap \<and> gap \<le> 200 \<and> 100 \<le> width pf \<and> width pf \<le> 300))"
proof (intro conjI impI)
  from assms(2) have p: "minPlatformWidth g = 100" "maxPlatformWidth g = 300"
      "minGapWidth g = 100" "maxGapWidth g = 200" "platformHeight g = 20"
    by (simp_all add: standard_parameters_def)
  define g0 where "g0 = g\<lparr>platforms := platforms g @
            [\<lparr>x = 0, y = real (canvasHeight g) - 50,
              width = real (canvasWidth g) * 2, height = 50\<rparr>]\<rparr>"
  have g0: "canvasHeight g0 = canvasHeight g"
      "minPlatformWidth g0 = 100" "maxPlatformWidth g0 = 300"
      "minGapWidth g0 = 100" "maxGapWidth g0 = 200" "platformHeight g0 = 20"
    using p by (simp_all add: g0_def)
  from generateLoop_drawn [of 10 "real (canvasWidth g)" g0 r]
  obtain new where new:
      "generateLoop 10 (real (canvasWidth g)) g0 r
         = (g0\<lparr>platforms := platforms g0 @ new\<rparr>, \<lambda>k. r (k + 3 * 10))"
      "length new = 10"
      "\<forall>i<10. width (new ! i) = uniformBetween 100 300 (r (3 * i))
             \<and> y (new ! i)
                 = uniformBetween (real (canvasHeight g) * 0.3) (real (canvasHeight g) * 0.7)
                     (r (3 * i + 1))
             \<and> height (new ! i) = 20"
      "x (new ! 0) = real (canvasWidth g)"
      "\<forall>i. Suc i < 10 \<longrightarrow>
           x (new ! Suc i) = x (new ! i) + (width (new ! i)
             + uniformBetween 100 200 (r (3 * i + 2)))"
    unfolding g0 by auto
  have wb: "100 \<le> uniformBetween 100 300 (r k)" "uniformBetween 100 300 (r k) \<le> 300" for k
    using uniformBetween_range [OF assms(1), of 100 300 k] by simp_all
  have gb: "100 \<le> uniformBetween 100 200 (r k)" "uniformBetween 100 200 (r k) \<le> 200" for k
    using uniformBetween_range [OF assms(1), of 100 200 k] by simp_all
  have "generateInitialPlatforms g r = (g\<lparr>platforms := platforms g @
                   \<lparr>x = 0, y = real (canvasHeight g) - 50,
                    width = real (canvasWidth g) * 2, height = 50\<rparr> # new\<rparr>, \<lambda>k. r (k + 30))"
    unfolding generateInitialPlatforms_def using new(1) by (simp add: g0_def)
  with new(2-5) wb gb
  show "\<exists>new. generateInitialPlatforms g r
              = (g\<lparr>platforms := platforms g @
                     \<lparr>x = 0, y = real (canvasHeight g) - 50,
                      width = real (canvasWidth g) * 2, height = 50\<rparr> # new\<rparr>,
                 \<lambda>k. r (k + 30)) \<and>
        length new = 10 \<and>
        x (new ! 0) = real (canvasWidth g) \<and>
        (\<forall>i<10. width (new ! i) = uniformBetween 100 300 (r (3 * i)) \<and>
                100 \<le> width (new ! i) \<and> width (new ! i) \<le> 300 \<and>
                y (new ! i)
                  = uniformBetween (real (canvasHeight g) * 0.3) (real (canvasHeight g) * 0.7)
                      (r (3 * i + 1)) \<and>
                height (new ! i) = 20) \<and>
        (\<forall>i<9. x (new ! Suc i)
                 = x (new ! i) + (width (new ! i) + uniformBetween 100 200 (r (3 * i + 2))) \<and>
               100 \<le> uniformBetween 100 200 (r (3 * i + 2)) \<and>
               uniformBetween 100 200 (r (3 * i + 2)) \<le> 200)"
    by (intro exI [of _ new]) simp
next
  assume kept: "keptPlatforms g \<noteq> []"
  from assms(2) have p: "minPlatformWidth g = 100" "maxPlatformWidth g = 300"
      "minGapWidth g = 100" "maxGapWidth g = 200" "platformHeight g = 20"
    by (simp_all add: standard_parameters_def)
  define edge where "edge = x (last (keptPlatforms g)) + width (last (keptPlatforms g))"
  define gap where "gap = uniformBetween 100 200 (r 0)"
  define pf :: platform where "pf =
     \<lparr>x = edge + gap,
      y = uniformBetween (real (canvasHeight g) * 0.3) (real (canvasHeight g) * 0.7) (r 2),
      width = uniformBetween 100 300 (r 1),
      height = 20\<rparr>"
  have u: "updatePlatforms g r
              = (if edge < cameraX g + real (canvasWidth g) + 500
                 then Some (g\<lparr>platforms := keptPlatforms g @ [pf]\<rparr>, \<lambda>k. r (k + 3))
                 else Some (g\<lparr>platforms := keptPlatforms g\<rparr>, r))"
    unfolding updatePlatforms_eq [OF kept] p
    by (simp add: pf_def edge_def gap_def uniformBetween_def numeral_3_eq_3)
  have b: "100 \<le> gap" "gap \<le> 200" "100 \<le> width pf" "width pf \<le> 300"
    using uniformBetween_range [OF assms(1), of 100 300 1]
      uniformBetween_range [OF assms(1), of 100 200 0]
    by (simp_all add: pf_def gap_def)
  from u b show "let edge = x (last (keptPlatforms g)) + width (last (keptPlatforms g));
             gap = uniformBetween 100 200 (r 0);
             pf = \<lparr>x = edge + gap,
                   y = uniformBetween (real (canvasHeight g) * 0.3)
                         (real (canvasHeight g) * 0.7) (r 2),
                   width = uniformBetween 100 300 (r 1),
                   height = 20\<rparr>
         in updatePlatforms g r
              = (if edge < cameraX g + real (canvasWidth g) + 500
                 then Some (g\<lparr>platforms := keptPlatforms g @ [pf]\<rparr>, \<lambda>k. r (k + 3))
                 else Some (g\<lparr>platforms := keptPlatforms g\<rparr>, r)) \<and>
            100 \<le> gap \<and> gap \<le> 200 \<and> 100 \<le> width pf \<and> width pf \<le> 300"
    unfolding Let_def pf_def edge_def gap_def by simp
qed

text \<open>
  The initial generation of the small game's constructor, and a platform appended by
  \<^verbatim>\<open>updatePlatforms\<close> once the camera is at 2000, for the outcomes 0, 1/4, 1/2, 3/4, ...
\<close>

theorem C3_generated_platforms_witness:
  "unit_samples ramp_samples \<and> standard_parameters tiny_blank \<and>
   standard_parameters tiny_ahead \<and> keptPlatforms tiny_ahead \<noteq> [] \<and>
   (\<exists>new. platforms (fst (generateInitialPlatforms tiny_blank ramp_samples))
            = \<lparr>x = 0, y = 51, width = 1800, height = 50\<rparr> # new \<and>
          length new = 10 \<and>
          new ! 0 = \<lparr>x = 900, y = 40.4, width = 100, height = 20\<rparr> \<and>
          new ! 1 = \<lparr>x = 1150, y = 30.3, width = 250, height = 20\<rparr>) \<and>
   updatePlatforms tiny_ahead ramp_samples
     = Some (tiny_ahead\<lparr>platforms := keptPlatforms tiny_ahead @
                           [\<lparr>x = 2900, y = 50.5, width = 150, height = 20\<rparr>]\<rparr>,
             \<lambda>k. ramp_samples (k + 3))"
proof -
  have sb: "standard_parameters tiny_blank"
    using standard_tiny_game by (simp add: tiny_blank_def standard_parameters_def)
  have sa: "standard_parameters tiny_ahead"
    using standard_tiny_game by (simp add: tiny_ahead_def standard_parameters_def)
  have k: "keptPlatforms tiny_ahead \<noteq> []" by (simp add: kept_tiny_ahead)
  from C3_generated_platforms [OF unit_ramp_samples sb]
  obtain new where new:
      "generateInitialPlatforms tiny_blank ramp_samples
              = (tiny_blank\<lparr>platforms := platforms tiny_blank @
                     \<lparr>x = 0, y = real (canvasHeight tiny_blank) - 50,
                      width = real (canvasWidth tiny_blank) * 2, height = 50\<rparr> # new\<rparr>,
                 \<lambda>k. ramp_samples (k + 30))"
      "length new = 10"
      "x (new ! 0) = real (canvasWidth tiny_blank)"
      "\<forall>i<10. width (new ! i) = uniformBetween 100 300 (ramp_samples (3 * i)) \<and>
                100 \<le> width (new ! i) \<and> width (new ! i) \<le> 300 \<and>
                y (new ! i)
                  = uniformBetween (real (canvasHeight tiny_blank) * 0.3)
                      (real (canvasHeight tiny_blank) * 0.7) (ramp_samples (3 * i + 1)) \<and>
                height (new ! i) = 20"
      "\<forall>i<9. x (new ! Suc i)
                 = x (new ! i) + (width (new ! i)
                     + uniformBetween 100 200 (ramp_samples (3 * i + 2))) \<and>
               100 \<le> uniformBetween 100 200 (ramp_samples (3 * i + 2)) \<and>
               uniformBetween 100 200 (ramp_samples (3 * i + 2)) \<le> 200"
    by blast
  have c: "canvasHeight tiny_blank = 101" "canvasWidth tiny_blank = 900"
      "platforms tiny_blank = []"
    by (simp_all add: tiny_blank_def tiny_game_eq)
  from new(4) have n0: "width (new ! 0) = 100" "y (new ! 0) = 40.4" "height (new ! 0) = 20"
    by (simp_all add: c uniformBetween_def ramp_samples_def)
  from new(4) have "width (new ! 1) = uniformBetween 100 300 (ramp_samples (3 * 1)) \<and>
                y (new ! 1)
                  = uniformBetween (real (canvasHeight tiny_blank) * 0.3)
                      (real (canvasHeight tiny_blank) * 0.7) (ramp_samples (3 * 1 + 1)) \<and>
                height (new ! 1) = 20"
    by simp
  then have n1: "width (new ! 1) = 250" "y (new ! 1) = 30.3" "height (new ! 1) = 20"
    by (simp_all add: c uniformBetween_def ramp_samples_def)
  from new(5) have "x (new ! Suc 0)
                 = x (new ! 0) + (width (new ! 0)
                     + uniformBetween 100 200 (ramp_samples (3 * 0 + 2)))"
    by simp
  then have x1: "x (new ! 1) = 1150"
    by (simp add: new(3) n0 c uniformBetween_def ramp_samples_def)
  have e0: "new ! 0 = \<lparr>x = 900, y = 40.4, width = 100, height = 20\<rparr>"
    using new(3) n0 by (cases "new ! 0") (simp add: c)
  have e1: "new ! 1 = \<lparr>x = 1150, y = 30.3, width = 250, height = 20\<rparr>"
    using x1 n1 by (cases "new ! 1") simp
  have first: "\<exists>new. platforms (fst (generateInitialPlatforms tiny_blank ramp_samples))
            = \<lparr>x = 0, y = 51, width = 1800, height = 50\<rparr> # new \<and>
          length new = 10 \<and>
          new ! 0 = \<lparr>x = 900, y = 40.4, width = 100, height = 20\<rparr> \<and>
          new ! 1 = \<lparr>x = 1150, y = 30.3, width = 250, height = 20\<rparr>"
    using new(2) e0 e1 by (intro exI [of _ new]) (simp add: new(1) c)
  from C3_generated_platforms [OF unit_ramp_samples sa] k
  have "updatePlatforms tiny_ahead ramp_samples
     = Some (tiny_ahead\<lparr>platforms := keptPlatforms tiny_ahead @
                           [\<lparr>x = 2900, y = 50.5, width = 150, height = 20\<rparr>]\<rparr>,
             \<lambda>k. ramp_samples (k + 3))"
    by (simp add: Let_def kept_tiny_ahead uniformBetween_def ramp_samples_def)
       (simp add: tiny_ahead_def tiny_game_eq)
  with unit_ramp_samples sb sa k first show ?thesis by blast
qed

text \<open>
  C3 as the specification states it fails in the initial generation: the first of the ten
  platforms starts at the canvas width (900), 900 to the left of the right edge (1800) of
  the platform appended before it, the ground; and the ground, itself appended by the
  initial generation, is 50 high and 1800 wide.
\<close>

theorem C3_first_platform_counterexample:
  "x (platforms tiny_game ! 1) - (x (platforms tiny_game ! 0) + width (platforms tiny_game ! 0))
     = - 900 \<and>
   \<not> spaced (platforms tiny_game) \<and>
   height (platforms tiny_game ! 0) = 50 \<and>
   \<not> wellShaped (canvasHeight tiny_game) (platforms tiny_game ! 0)"
  by (simp add: tiny_game_eq wellShaped_def)


subsection \<open>What an update changes\<close>

lemma generateLoop_frame:
  "\<exists>new r'. generateLoop n nextX g r = (g\<lparr>platforms := platforms g @ new\<rparr>, r')
             \<and> length new = n"
proof (induction n arbitrary: nextX g r)
  case 0
  show ?case by simp
next
  case (Suc n)
  obtain g1 r1 where a: "addNewPlatform nextX g r = (g1, r1)"
    by (cases "addNewPlatform nextX g r")
  then obtain pf where g1: "g1 = g\<lparr>platforms := platforms g @ [pf]\<rparr>"
    by (auto simp: addNewPlatform_eq)
  obtain gap r2 where b: "randomBetween (minGapWidth g1) (maxGapWidth g1) r1 = (gap, r2)"
    by (cases "randomBetween (minGapWidth g1) (maxGapWidth g1) r1")
  from Suc.IH [of "nextX + (width (last (platforms g1)) + gap)" g1 r2]
  obtain new r' where new:
      "generateLoop n (nextX + (width (last (platforms g1)) + gap)) g1 r2
         = (g1\<lparr>platforms := platforms g1 @ new\<rparr>, r')" "length new = n"
    by blast
  have "generateLoop (Suc n) nextX g r = (g\<lparr>platforms := platforms g @ (pf # new)\<rparr>, r')"
    by (simp add: a b new(1)) (simp add: g1)
  with new(2) show ?case
    by (intro exI [of _ "pf # new"] exI [of _ r']) simp
qed

lemma generateInitialPlatforms_frame:
  "\<exists>new r'. generateInitialPlatforms g r
            = (g\<lparr>platforms := platforms g @
                   \<lparr>x = 0, y = real (canvasHeight g) - 50,
                    width = real (canvasWidth g) * 2, height = 50\<rparr> # new\<rparr>, r')
           \<and> length new = 10"
proof -
  define g0 where "g0 = g\<lparr>platforms := platforms g @
            [\<lparr>x = 0, y = real (canvasHeight g) - 50,
              width = real (canvasWidth g) * 2, height = 50\<rparr>]\<rparr>"
  from generateLoop_frame [of 10 "real (canvasWidth g)" g0 r]
  obtain new r' where new: "generateLoop 10 (real (canvasWidth g)) g0 r
        = (g0\<lparr>platforms := platforms g0 @ new\<rparr>, r')" "length new = 10"
    by blast
  have "generateInitialPlatforms g r = (g\<lparr>platforms := platforms g @
                   \<lparr>x = 0, y = real (canvasHeight g) - 50,
                    width = real (canvasWidth g) * 2, height = 50\<rparr> # new\<rparr>, r')"
    unfolding generateInitialPlatforms_def using new(1) by (simp add: g0_def)
  with new(2) show ?thesis by blast
qed

lemma resetGame_frame:
  "\<exists>new r'. resetGame g r
            = (g\<lparr>cameraX := 0, distance := 0,
                 player := (player g)\<lparr>x := real (canvasWidth g) / 3, y := 100,
                                      velocityX := 0, velocityY := 0\<rparr>,
                 platforms := \<lparr>x = 0, y = real (canvasHeight g) - 50,
                                width = real (canvasWidth g) * 2, height = 50\<rparr> # new\<rparr>, r')
           \<and> length new = 10"
proof -
  define g0 where "g0 = g\<lparr>cameraX := 0, distance := 0,
          player := (player g)\<lparr>x := real (canvasWidth g) / 3, y := 100,
                               velocityX := 0, velocityY := 0\<rparr>,
          platforms := []\<rparr>"
  from generateInitialPlatforms_frame [of g0 r]
  obtain new r' where new: "generateInitialPlatforms g0 r
            = (g0\<lparr>platforms := platforms g0 @
                   \<lparr>x = 0, y = real (canvasHeight g0) - 50,
                    width = real (canvasWidth g0) * 2, height = 50\<rparr> # new\<rparr>, r')"
      "length new = 10"
    by blast
  have "resetGame g r = (g\<lparr>cameraX := 0, distance := 0,
                 player := (player g)\<lparr>x := real (canvasWidth g) / 3, y := 100,
                                      velocityX := 0, velocityY := 0\<rparr>,
                 platforms := \<lparr>x = 0, y = real (canvasHeight g) - 50,
                                width = real (canvasWidth g) * 2, height = 50\<rparr> # new\<rparr>, r')"
    unfolding resetGame_def g0_def [symmetric] new(1) by (simp add: g0_def)
  with new(2) show ?thesis by blast
qed

lemma updatePlatforms_frame:
  assumes "updatePlatforms g r = Some (g', r')"
  shows "\<exists>new. g' = g\<lparr>platforms := keptPlatforms g @ new\<rparr> \<and> length new \<le> 1"
proof (cases "keptPlatforms g = []")
  case True
  with assms show ?thesis
    by (simp add: updatePlatforms_def keptPlatforms_def)
next
  case False
  show ?thesis
  proof (cases "x (last (keptPlatforms g)) + width (last (keptPlatforms g))
                 < cameraX g + real (canvasWidth g) + 500")
    case True
    with assms obtain pf where "g' = g\<lparr>platforms := keptPlatforms g @ [pf]\<rparr>"
      unfolding updatePlatforms_eq [OF False] by simp blast
    then show ?thesis by (intro exI [of _ "[pf]"]) simp
  next
    case no: False
    with assms have "g' = g\<lparr>platforms := keptPlatforms g @ []\<rparr>"
      unfolding updatePlatforms_eq [OF False] by simp
    then show ?thesis by (intro exI [of _ "[]"]) simp
  qed
qed

lemma endless_collided_frame:
  assumes "endless_collided g r = Some (g4, r4)"
  shows "\<exists>new. length new \<le> 1 \<and>
           g4 = checkCollisions
                  ((followCamera (endless_move g))
                     \<lparr>platforms := keptPlatforms (followCamera (endless_move g)) @ new\<rparr>)"
proof -
  from assms obtain g3 where g3: "updatePlatforms (followCamera (endless_move g)) r = Some (g3, r4)"
      "g4 = checkCollisions g3"
    by (auto simp: endless_collided_def split: option.splits)
  from updatePlatforms_frame [OF g3(1)] g3(2) show ?thesis by blast
qed

text \<open>
  C7. In the endless variant no step of the update loop changes a platform: the movement
  step, the camera step and \<^verbatim>\<open>checkCollisions\<close> leave the list as it is, and the list
  after an update is either the platforms of the old list that the filter keeps, in their
  order and as they were, followed by at most one new platform, or (after a reset) a
  freshly generated list of the ground and ten platforms.
\<close>

theorem C7_platforms_immutable:
  assumes "endless_update g r = Some (g', r')"
  shows "platforms (endless_move g) = platforms g \<and>
         platforms (followCamera (endless_move g)) = platforms g \<and>
         platforms (checkCollisions g) = platforms g \<and>
         ((\<exists>new. length new \<le> 1 \<and>
                 platforms g' =
                   filter (\<lambda>pf. x pf + width pf > cameraX (followCamera (endless_move g)) - 300)
                     (platforms g) @ new) \<or>
          (\<exists>new. length new = 10 \<and>
                 platforms g' =
                   \<lparr>x = 0, y = real (canvasHeight g) - 50,
                    width = real (canvasWidth g) * 2, height = 50\<rparr> # new))"
proof -
  from assms obtain g4 r4 where c: "endless_collided g r = Some (g4, r4)"
    by (auto simp: endless_update_def split: option.splits)
  from endless_collided_frame [OF c] obtain new where new: "length new \<le> 1"
    "g4 = checkCollisions
                  ((followCamera (endless_move g))
                     \<lparr>platforms := keptPlatforms (followCamera (endless_move g)) @ new\<rparr>)"
    by blast
  have k: "keptPlatforms (followCamera (endless_move g)) =
      filter (\<lambda>pf. x pf + width pf > cameraX (followCamera (endless_move g)) - 300) (platforms g)"
    by (simp add: keptPlatforms_def)
  have "(\<exists>new. length new \<le> 1 \<and>
                 platforms g' =
                   filter (\<lambda>pf. x pf + width pf > cameraX (followCamera (endless_move g)) - 300)
                     (platforms g) @ new) \<or>
          (\<exists>new. length new = 10 \<and>
                 platforms g' =
                   \<lparr>x = 0, y = real (canvasHeight g) - 50,
                    width = real (canvasWidth g) * 2, height = 50\<rparr> # new)"
  proof (cases "y (player g4) > real (canvasHeight g4)")
    case True
    with assms c have g': "g' = fst (resetGame g4 r4)"
      by (simp add: endless_update_def)
    from resetGame_frame [of g4 r4] obtain fresh where "length fresh = 10"
      "platforms g' = \<lparr>x = 0, y = real (canvasHeight g4) - 50,
                        width = real (canvasWidth g4) * 2, height = 50\<rparr> # fresh"
      unfolding g' by auto
    then show ?thesis by (simp add: new(2))
  next
    case False
    with assms c have "g' = g4" by (simp add: endless_update_def)
    with new k show ?thesis by simp
  qed
  then show ?thesis by simp
qed

theorem C7_platforms_immutable_witness:
  "endless_update (handleKeyDown ''ArrowRight'' tiny_game) zero_samples
     = Some (tiny_falling, zero_samples) \<and>
   platforms (checkCollisions (handleKeyDown ''ArrowRight'' tiny_game))
     = platforms (handleKeyDown ''ArrowRight'' tiny_game) \<and>
   platforms tiny_falling = platforms tiny_game"
proof -
  from C7_platforms_immutable [OF tiny_update1]
  have "platforms (checkCollisions (handleKeyDown ''ArrowRight'' tiny_game))
          = platforms (handleKeyDown ''ArrowRight'' tiny_game)"
    by (rule_tac conjunct1 [OF conjunct2 [OF conjunct2]])
  moreover have "platforms tiny_falling = platforms tiny_game"
    by (simp add: tiny_falling_def)
  ultimately show ?thesis using tiny_update1 by simp
qed




text \<open>
  C5, in the form the code satisfies. In the endless variant, after an update that does not
  end with the reset, \<open>cameraX\<close> is the player's \<open>x\<close> minus a third
  of the canvas width when the player's \<open>x\<close> exceeds that third, and is what it
  was before the update otherwise. An update that ends with the reset leaves \<open>cameraX
  = 0\<close> and the player at a third of the canvas width. (\<open>g4\<close> is the game
  after collision resolution, before the check of the reset.)
\<close>

theorem C5_camera_follows_player:
  assumes "endless_collided g r = Some (g4, r4)"
  shows "\<exists>g' r'. endless_update g r = Some (g', r') \<and>
           (if y (player g4) > real (canvasHeight g4)
            then cameraX g' = 0 \<and> x (player g') = real (canvasWidth g') / 3
            else if x (player g') > real (canvasWidth g') / 3
            then cameraX g' = x (player g') - real (canvasWidth g') / 3
            else cameraX g' = cameraX g)"
proof (cases "y (player g4) > real (canvasHeight g4)")
  case True
  from resetGame_frame [of g4 r4] obtain new r' where
    "resetGame g4 r4
            = (g4\<lparr>cameraX := 0, distance := 0,
                 player := (player g4)\<lparr>x := real (canvasWidth g4) / 3, y := 100,
                                      velocityX := 0, velocityY := 0\<rparr>,
                 platforms := \<lparr>x = 0, y = real (canvasHeight g4) - 50,
                                width = real (canvasWidth g4) * 2, height = 50\<rparr> # new\<rparr>, r')"
    by blast
  with True assms show ?thesis by (simp add: endless_update_def)
next
  case False
  from endless_collided_frame [OF assms] obtain new where
    "g4 = checkCollisions
                  ((followCamera (endless_move g))
                     \<lparr>platforms := keptPlatforms (followCamera (endless_move g)) @ new\<rparr>)"
    by blast
  then have "x (player g4) = x (player (endless_move g))"
    "canvasWidth g4 = canvasWidth g"
    "cameraX g4 = (if x (player (endless_move g)) > real (canvasWidth g) / 3
                   then x (player (endless_move g)) - real (canvasWidth g) / 3
                   else cameraX g)"
    by (simp_all add: followCamera_cameraX)
  with False assms show ?thesis by (simp add: endless_update_def)
qed

text \<open>The first frame of the small game: no reset, and the camera follows the player.\<close>

theorem C5_camera_follows_player_witness:
  "endless_collided (handleKeyDown ''ArrowRight'' tiny_game) zero_samples
     = Some (tiny_falling, zero_samples) \<and>
   \<not> y (player tiny_falling) > real (canvasHeight tiny_falling) \<and>
   (\<exists>g' r'. endless_update (handleKeyDown ''ArrowRight'' tiny_game) zero_samples = Some (g', r') \<and>
            x (player g') > real (canvasWidth g') / 3 \<and>
            cameraX g' = x (player g') - real (canvasWidth g') / 3)"
proof -
  have no: "\<not> y (player tiny_falling) > real (canvasHeight tiny_falling)"
    by (simp add: tiny_falling_def tiny_game_eq)
  from C5_camera_follows_player [OF tiny_collided1] no
  obtain g' r' where g': "endless_update (handleKeyDown ''ArrowRight'' tiny_game) zero_samples
        = Some (g', r')"
      "if x (player g') > real (canvasWidth g') / 3
            then cameraX g' = x (player g') - real (canvasWidth g') / 3
            else cameraX g' = cameraX (handleKeyDown ''ArrowRight'' tiny_game)"
    by auto
  from g'(1) have "g' = tiny_falling" by (simp add: tiny_update1)
  then have "x (player g') > real (canvasWidth g') / 3"
    by (simp add: tiny_falling_def tiny_game_eq)
  with g' tiny_collided1 no show ?thesis by auto
qed

text \<open>
  C5 as the specification states it fails for an update that ends with the reset. In the
  second frame of the small game the player's \<open>x\<close> is 310 after position
  integration, which exceeds the third of the canvas width (300), and 300 after the update,
  which does not; \<open>cameraX\<close>, 5 before the update, is 0 after it: neither 310 -
  300 nor left unchanged.
\<close>

theorem C5_reset_counterexample:
  "endless_run [KeyDown ''ArrowRight'', Frame zero_samples]
     (fst (endless_constructor 900 101 zero_samples)) = Some tiny_falling \<and>
   cameraX tiny_falling = 5 \<and>
   map_option (x \<circ> player \<circ> fst) (endless_collided tiny_falling zero_samples) = Some 310 \<and>
   map_option (cameraX \<circ> fst) (endless_update tiny_falling zero_samples) = Some 0 \<and>
   map_option (x \<circ> player \<circ> fst) (endless_update tiny_falling zero_samples) = Some 300 \<and>
   map_option (canvasWidth \<circ> fst) (endless_update tiny_falling zero_samples) = Some 900"
proof (intro conjI)
  show "endless_run [KeyDown ''ArrowRight'', Frame zero_samples]
     (fst (endless_constructor 900 101 zero_samples)) = Some tiny_falling"
    by (rule tiny_run1)
  show "cameraX tiny_falling = 5"
    by (simp add: tiny_falling_def)
  show "map_option (x \<circ> player \<circ> fst) (endless_collided tiny_falling zero_samples) = Some 310"
    by (simp add: tiny_collided2 tiny_fallen_def)
  show "map_option (cameraX \<circ> fst) (endless_update tiny_falling zero_samples) = Some 0"
    by (simp add: tiny_update2 tiny_game_eq)
  show "map_option (x \<circ> player \<circ> fst) (endless_update tiny_falling zero_samples) = Some 300"
    by (simp add: tiny_update2 tiny_game_eq)
  show "map_option (canvasWidth \<circ> fst) (endless_update tiny_falling zero_samples) = Some 900"
    by (simp add: tiny_update2 tiny_game_eq)
qed


subsection \<open>The score\<close>

lemma score_followCamera:
  assumes "distance g = real_of_int \<lfloor>cameraX g / 100\<rfloor>"
  shows "distance (followCamera g) = real_of_int \<lfloor>cameraX (followCamera g) / 100\<rfloor>"
  using assms by (simp add: followCamera_def Let_def)

lemma score_update:
  assumes "distance g = real_of_int \<lfloor>cameraX g / 100\<rfloor>"
    and "endless_update g r = Some (g', r')"
  shows "distance g' = real_of_int \<lfloor>cameraX g' / 100\<rfloor>"
proof -
  from assms(2) obtain g4 r4 where c: "endless_collided g r = Some (g4, r4)"
    by (auto simp: endless_update_def split: option.splits)
  from endless_collided_frame [OF c] obtain new where
    g4: "g4 = checkCollisions
                  ((followCamera (endless_move g))
                     \<lparr>platforms := keptPlatforms (followCamera (endless_move g)) @ new\<rparr>)"
    by blast
  have "distance (endless_move g) = real_of_int \<lfloor>cameraX (endless_move g) / 100\<rfloor>"
    using assms(1) by simp
  from score_followCamera [OF this]
  have s4: "distance g4 = real_of_int \<lfloor>cameraX g4 / 100\<rfloor>"
    by (simp add: g4)
  show ?thesis
  proof (cases "y (player g4) > real (canvasHeight g4)")
    case True
    with assms(2) c have "g' = fst (resetGame g4 r4)"
      by (simp add: endless_update_def)
    with resetGame_frame [of g4 r4] show ?thesis by auto
  next
    case False
    with assms(2) c have "g' = g4" by (simp add: endless_update_def)
    with s4 show ?thesis by simp
  qed
qed

lemma score_step:
  assumes "distance g = real_of_int \<lfloor>cameraX g / 100\<rfloor>"
    and "endless_step e g = Some g'"
  shows "distance g' = real_of_int \<lfloor>cameraX g' / 100\<rfloor>"
proof (cases e)
  case (Frame r)
  with assms(2) obtain r' where "endless_update g r = Some (g', r')" by auto
  from score_update [OF assms(1) this] show ?thesis .
qed (use assms in \<open>auto simp: handleKeyDown_def handleKeyUp_def handleTouch_def
        handleTouchEnd_def\<close>)

lemma score_run:
  assumes "distance g = real_of_int \<lfloor>cameraX g / 100\<rfloor>"
    and "endless_run evs g = Some g'"
  shows "distance g' = real_of_int \<lfloor>cameraX g' / 100\<rfloor>"
  using assms
proof (induction evs arbitrary: g)
  case Nil
  then show ?case by simp
next
  case (Cons e evs)
  from Cons.prems(2) obtain g1 where g1: "endless_step e g = Some g1" "endless_run evs g1 = Some g'"
    by (auto split: option.splits)
  from Cons.IH [OF score_step [OF Cons.prems(1) g1(1)] g1(2)] show ?case .
qed

lemma score_constructor:
  "distance (fst (endless_constructor innerWidth innerHeight r)) = 0"
  "cameraX (fst (endless_constructor innerWidth innerHeight r)) = 0"
proof -
  define g0 :: endless_game where "g0 = \<lparr>canvasWidth = innerWidth,
        canvasHeight = innerHeight,
        player = \<lparr>x = real innerWidth / 3, y = 100, width = 32, height = 48,
                  velocityX = 0, velocityY = 0, isJumping = False,
                  speed = 5, maxSpeed = 8\<rparr>,
        gravity = 0.5,
        jumpForce = - 12,
        input = \<lparr>left = False, right = False, jump = False\<rparr>,
        platforms = [],
        cameraX = 0,
        distance = 0,
        minPlatformWidth = 100,
        maxPlatformWidth = 300,
        minGapWidth = 100,
        maxGapWidth = 200,
        platformHeight = 20\<rparr>"
  from generateInitialPlatforms_frame [of g0 r]
  obtain new r' where "generateInitialPlatforms g0 r
            = (g0\<lparr>platforms := platforms g0 @
                   \<lparr>x = 0, y = real (canvasHeight g0) - 50,
                    width = real (canvasWidth g0) * 2, height = 50\<rparr> # new\<rparr>, r')"
    by blast
  then show "distance (fst (endless_constructor innerWidth innerHeight r)) = 0"
    "cameraX (fst (endless_constructor innerWidth innerHeight r)) = 0"
    unfolding endless_constructor_def g0_def [symmetric] by (simp_all add: g0_def)
qed

text \<open>
  C8. In the endless variant \<open>distance = floor (cameraX / 100)\<close> holds in every game
  reached from the constructor by any sequence of events, whatever \<^verbatim>\<open>Math.random()\<close>
  returns: both are 0 after the constructor and after \<^verbatim>\<open>resetGame\<close>, an update that
  recomputes \<open>cameraX\<close> recomputes \<open>distance\<close> from it, and nothing else writes either.
\<close>

theorem C8_distance_follows_camera:
  assumes "endless_run evs (fst (endless_constructor innerWidth innerHeight r)) = Some g"
  shows "distance g = real_of_int \<lfloor>cameraX g / 100\<rfloor>"
  by (rule score_run [OF _ assms]) (simp add: score_constructor)

theorem C8_distance_follows_camera_witness:
  "endless_run [KeyDown ''ArrowRight'', Frame zero_samples]
     (fst (endless_constructor 900 101 zero_samples)) = Some tiny_falling \<and>
   distance tiny_falling = real_of_int \<lfloor>cameraX tiny_falling / 100\<rfloor>"
  using C8_distance_follows_camera [OF tiny_run1] tiny_run1 by (rule_tac conjI)


subsection \<open>The platform list is never empty\<close>

lemma last_filter_keep:
  "xs \<noteq> [] \<Longrightarrow> P (last xs) \<Longrightarrow> filter P xs \<noteq> [] \<and> last (filter P xs) = last xs"
proof (induction xs)
  case Nil
  then show ?case by simp
next
  case (Cons a xs)
  show ?case
  proof (cases "xs = []")
    case True
    with Cons.prems show ?thesis by simp
  next
    case False
    with Cons show ?thesis by simp
  qed
qed

lemma last_kept:
  assumes "platforms g \<noteq> []"
    and "x (last (platforms g)) + width (last (platforms g)) > cameraX g - 300"
  shows "keptPlatforms g \<noteq> []" and "last (keptPlatforms g) = last (platforms g)"
  using last_filter_keep [OF assms(1), of "\<lambda>pf. x pf + width pf > cameraX g - 300"] assms(2)
  by (simp_all add: keptPlatforms_def)


lemma invariant_checkCollisions [simp]: "endless_invariant (checkCollisions g) = endless_invariant g"
  by (simp add: endless_invariant_def)

lemma invariant_generateInitialPlatforms:
  assumes "unit_samples r" and "standard_parameters g" and "speed (player g) = 5"
    and "cameraX g = 0" and "x (player g) = real (canvasWidth g) / 3"
  shows "endless_invariant (fst (generateInitialPlatforms g r))"
    and "unit_samples (snd (generateInitialPlatforms g r))"
proof -
  from generateInitialPlatforms_shape [OF assms(1,2)]
  obtain new r' where new: "generateInitialPlatforms g r
            = (g\<lparr>platforms := platforms g @
                   \<lparr>x = 0, y = real (canvasHeight g) - 50,
                    width = real (canvasWidth g) * 2, height = 50\<rparr> # new\<rparr>, r')"
      "unit_samples r'" "length new = 10"
      "\<forall>pf\<in>set new. wellShaped (canvasHeight g) pf \<and> real (canvasWidth g) \<le> x pf"
    by blast
  from new(3) have ne: "new \<noteq> []" by auto
  then have "last new \<in> set new" by simp
  with new(4) have "100 \<le> width (last new)" "real (canvasWidth g) \<le> x (last new)"
    by (simp_all add: wellShaped_def)
  then show "endless_invariant (fst (generateInitialPlatforms g r))"
    using assms(2-5) ne by (simp add: new(1) endless_invariant_def standard_parameters_def)
  show "unit_samples (snd (generateInitialPlatforms g r))"
    using new(2) by (simp add: new(1))
qed

lemma invariant_constructor:
  assumes "unit_samples r"
  shows "endless_invariant (fst (endless_constructor innerWidth innerHeight r))"
  unfolding endless_constructor_def
  by (rule invariant_generateInitialPlatforms [OF assms]) (simp_all add: standard_parameters_def)

lemma invariant_resetGame:
  assumes "unit_samples r" and "standard_parameters g" and "speed (player g) = 5"
  shows "endless_invariant (fst (resetGame g r))"
  unfolding resetGame_def
  by (rule invariant_generateInitialPlatforms [OF assms(1)])
     (use assms(2,3) in \<open>simp_all add: standard_parameters_def\<close>)

lemma invariant_update:
  assumes "endless_invariant g" and "unit_samples r"
  shows "\<exists>g' r'. endless_update g r = Some (g', r') \<and> endless_invariant g'"
proof -
  define g2 where "g2 = followCamera (endless_move g)"
  define L where "L = x (last (platforms g)) + width (last (platforms g))"
  from assms(1) have g: "standard_parameters g" "speed (player g) = 5" "0 \<le> cameraX g"
      "x (player g) - real (canvasWidth g) / 3 \<le> cameraX g" "platforms g \<noteq> []"
      "cameraX g + real (canvasWidth g) \<le> L"
    by (simp_all add: endless_invariant_def L_def)
  have f1: "standard_parameters g2" "speed (player g2) = 5" "platforms g2 = platforms g"
      "canvasWidth g2 = canvasWidth g"
    using g(1,2) by (simp_all add: g2_def)
  have f2: "x (player g2) \<le> x (player g) + 5"
    using g(2) by (simp add: g2_def endless_move_x)
  have f3: "cameraX g2 = (if x (player g2) > real (canvasWidth g) / 3
                          then x (player g2) - real (canvasWidth g) / 3 else cameraX g)"
    by (simp add: g2_def followCamera_cameraX)
  have c: "0 \<le> cameraX g2" "x (player g2) - real (canvasWidth g) / 3 \<le> cameraX g2"
      "cameraX g2 \<le> cameraX g + 5"
    using f2 f3 g(3,4) by (simp_all split: if_splits)
  have far: "cameraX g2 - 300 < L" using c(3) g(6) by simp
  have kept: "keptPlatforms g2 \<noteq> []" "last (keptPlatforms g2) = last (platforms g)"
    using last_kept [of g2] g(5) far by (simp_all add: f1(3) L_def)
  from updatePlatforms_shape [OF assms(2) f1(1) kept(1)]
  obtain new r' where new:
      "updatePlatforms g2 r = Some (g2\<lparr>platforms := keptPlatforms g2 @ new\<rparr>, r')"
      "unit_samples r'"
      "if L < cameraX g2 + real (canvasWidth g2) + 500
       then \<exists>pf. new = [pf] \<and> wellShaped (canvasHeight g2) pf
                  \<and> spaced [last (platforms g), pf]
       else new = []"
    unfolding kept(2) L_def by blast
  define g3 where "g3 = g2\<lparr>platforms := keptPlatforms g2 @ new\<rparr>"
  have last3: "cameraX g2 + real (canvasWidth g) \<le>
        x (last (keptPlatforms g2 @ new)) + width (last (keptPlatforms g2 @ new))"
  proof (cases "L < cameraX g2 + real (canvasWidth g2) + 500")
    case True
    with new(3) obtain pf where pf: "new = [pf]" "wellShaped (canvasHeight g2) pf"
        "spaced [last (platforms g), pf]"
      by auto
    from pf(2,3) have "L + 200 \<le> x pf + width pf"
      by (simp add: wellShaped_def L_def)
    with c(3) g(6) show ?thesis by (simp add: pf(1))
  next
    case False
    with new(3) have "new = []" by simp
    with False kept(2) show ?thesis by (simp add: L_def f1(4))
  qed
  have inv3: "endless_invariant g3"
    using f1 c(1,2) kept(1) last3 by (simp add: endless_invariant_def g3_def standard_parameters_def)
  define g4 where "g4 = checkCollisions g3"
  have inv4: "endless_invariant g4" using inv3 by (simp add: g4_def)
  have upd: "endless_update g r =
      (if y (player g4) > real (canvasHeight g4) then Some (resetGame g4 r') else Some (g4, r'))"
    using new(1)
    by (simp add: endless_update_def endless_collided_def g2_def [symmetric] g3_def g4_def)
  show ?thesis
  proof (cases "y (player g4) > real (canvasHeight g4)")
    case True
    from inv4 have "standard_parameters g4" "speed (player g4) = 5"
      by (simp_all add: endless_invariant_def)
    from invariant_resetGame [OF new(2) this] True upd show ?thesis
      by (cases "resetGame g4 r'") simp
  next
    case False
    with upd inv4 show ?thesis by simp
  qed
qed

lemma invariant_handlers [simp]:
  "endless_invariant (handleKeyDown code g) = endless_invariant g"
  "endless_invariant (handleKeyUp code g) = endless_invariant g"
  "endless_invariant (handleTouch clientX g) = endless_invariant g"
  "endless_invariant (handleTouchEnd g) = endless_invariant g"
  by (simp_all add: endless_invariant_def standard_parameters_def handleKeyDown_def handleKeyUp_def
      handleTouch_def handleTouchEnd_def)

lemma invariant_step:
  assumes "endless_invariant g" and "unit_event e"
  shows "\<exists>g'. endless_step e g = Some g' \<and> endless_invariant g'"
proof (cases e)
  case (Frame r)
  with assms(2) have "unit_samples r" by simp
  from invariant_update [OF assms(1) this] Frame show ?thesis by auto
qed (use assms(1) in simp_all)

lemma invariant_run:
  assumes "endless_invariant g" and "\<forall>e\<in>set evs. unit_event e"
  shows "\<exists>g'. endless_run evs g = Some g' \<and> endless_invariant g'"
  using assms
proof (induction evs arbitrary: g)
  case Nil
  then show ?case by simp
next
  case (Cons e evs)
  from invariant_step [OF Cons.prems(1), of e] Cons.prems(2)
  obtain g1 where g1: "endless_step e g = Some g1" "endless_invariant g1" by auto
  from Cons.IH [OF g1(2)] Cons.prems(2) g1(1) show ?case by simp
qed

text \<open>
  C4. In the endless variant the platform list is never empty: whatever the outcomes of
  \<^verbatim>\<open>Math.random()\<close> (each at least 0 and less than 1) and whatever events arrive, every
  handler and every update returns (the filter of \<^verbatim>\<open>updatePlatforms\<close> never leaves the
  list empty, so \<^verbatim>\<open>lastPlatform\<close> is defined), and the list of the game reached is not
  empty. This covers the initial generation, \<^verbatim>\<open>updatePlatforms\<close> and \<^verbatim>\<open>resetGame\<close>.
\<close>

theorem C4_platforms_never_empty:
  assumes "unit_samples r" and "\<forall>e\<in>set evs. unit_event e"
  shows "\<exists>g. endless_run evs (fst (endless_constructor innerWidth innerHeight r)) = Some g
             \<and> platforms g \<noteq> []"
proof -
  from invariant_run [OF invariant_constructor [OF assms(1)] assms(2)]
  show ?thesis by (auto simp: endless_invariant_def)
qed

theorem C4_platforms_never_empty_witness:
  "unit_samples zero_samples \<and> unit_event (KeyDown ''ArrowRight'') \<and>
   unit_event (Frame zero_samples) \<and>
   (\<exists>g. endless_run [KeyDown ''ArrowRight'', Frame zero_samples, Frame zero_samples]
          (fst (endless_constructor 900 101 zero_samples)) = Some g \<and>
        platforms g \<noteq> [])"
proof -
  have e: "\<forall>e\<in>set [KeyDown ''ArrowRight'', Frame zero_samples, Frame zero_samples]. unit_event e"
    by (simp add: unit_zero_samples)
  from C4_platforms_never_empty [OF unit_zero_samples e, of 900 101]
  have "\<exists>g. endless_run [KeyDown ''ArrowRight'', Frame zero_samples, Frame zero_samples]
          (fst (endless_constructor 900 101 zero_samples)) = Some g \<and>
        platforms g \<noteq> []" .
  with unit_zero_samples show ?thesis by simp
qed

end
